theory Spec2Isabelle
  imports Main "HOL-Library.Word" "HOL-Library.Multiset"
begin

unbundle bit_operations_syntax

section \<open>Expert-survey application: pairing, session tokens, access codes and votes\<close>

text \<open>
  A shallow embedding of the survey frontend's pairing logic (\<^verbatim>\<open>hash32\<close>,
  \<^verbatim>\<open>mulberry32\<close>, \<^verbatim>\<open>stableShuffle\<close>, \<^verbatim>\<open>nextPair\<close>) and of the edge worker
  (\<^verbatim>\<open>worker/src/index.ts\<close>: origin check, tokens, access codes, votes, the
  \<^verbatim>\<open>fetch\<close> handler).

  JavaScript strings are modelled as \<^typ>\<open>string\<close>: a character stands for one code unit
  below 256. Numbers that the program handles (trial ids, counters, millisecond
  timestamps) are integers and are modelled as \<^typ>\<open>int\<close>; \<^verbatim>\<open>NaN\<close> is \<^term>\<open>None\<close> of an
  \<^typ>\<open>int option\<close>.
\<close>

subsection \<open>Frontend: the deterministic generator\<close>

type_synonym u32 = "32 word"

text \<open>
  \<^verbatim>\<open>hash32\<close>: FNV-1a over the code units. \<^verbatim>\<open>h ^= c\<close> and \<^verbatim>\<open>Math.imul\<close> work on the low
  32 bits, \<^verbatim>\<open>h >>> 0\<close> reads them as unsigned: a \<^typ>\<open>u32\<close> throughout.
\<close>

fun hash32_loop :: "u32 \<Rightarrow> string \<Rightarrow> u32" where
  "hash32_loop h [] = h"
| "hash32_loop h (c # cs) = hash32_loop ((h XOR of_nat (of_char c)) * 16777619) cs"

definition hash32 :: "string \<Rightarrow> u32" where
  "hash32 s = hash32_loop 2166136261 s"

text \<open>
  \<^verbatim>\<open>mulberry32(seed)\<close> returns a closure over \<^verbatim>\<open>seed\<close>; one call of the closure is one
  application of \<^term>\<open>mulberry32\<close> to the closure's state, yielding the numerator \<open>u\<close> of
  the result \<open>u / 2\<^sup>3\<^sup>2\<close> and the next state. The source keeps \<^verbatim>\<open>seed\<close> as a double and
  only its low 32 bits enter the bit operations; the double is exact for the first
  four million calls, so the state is kept modulo \<open>2\<^sup>3\<^sup>2\<close>.
\<close>

definition mulberry32 :: "u32 \<Rightarrow> u32 \<times> u32" where
  "mulberry32 seed =
     (let seed' = seed + 0x6d2b79f5;
          t0 = seed';
          t1 = (t0 XOR drop_bit 15 t0) * (t0 OR 1);
          t2 = t1 XOR (t1 + (t1 XOR drop_bit 7 t1) * (t1 OR 61))
      in (t2 XOR drop_bit 14 t2, seed'))"

text \<open>
  \<^verbatim>\<open>Math.floor(rnd() * n)\<close> for \<^verbatim>\<open>rnd() = u / 4294967296\<close>. The product of the doubles is
  exact while \<open>n < 2\<^sup>2\<^sup>1\<close>, far above the handful of methods the survey compares.
\<close>

definition randIndex :: "u32 \<Rightarrow> nat \<Rightarrow> nat" where
  "randIndex u n = nat ((uint u * int n) div 4294967296)"

text \<open>
  The loop of \<^verbatim>\<open>stableShuffle\<close>: \<^verbatim>\<open>for (i = a.length - 1; i > 0; i--)\<close>, swapping
  \<^verbatim>\<open>a[i]\<close> and \<^verbatim>\<open>a[j]\<close>. The first argument is \<open>i\<close>.
\<close>

fun shuffle_loop :: "nat \<Rightarrow> u32 \<Rightarrow> 'a list \<Rightarrow> 'a list" where
  "shuffle_loop 0 seed a = a"
| "shuffle_loop (Suc k) seed a =
     (let (u, seed') = mulberry32 seed;
          i = Suc k;
          j = randIndex u (i + 1)
      in shuffle_loop k seed' ((a[i := a ! j])[j := a ! i]))"

definition stableShuffle :: "'a list \<Rightarrow> string \<Rightarrow> 'a list" where
  "stableShuffle arr seedStr = shuffle_loop (length arr - 1) (hash32 seedStr) arr"

text \<open>
  The same function over an explicit store of arrays, addressed by position:
  \<^verbatim>\<open>const a = [...arr]\<close> allocates a copy, the loop writes into the copy in place, and the
  address of the copy is returned.
\<close>

type_synonym 'a heap = "'a list list"

fun shuffle_loop_heap :: "nat \<Rightarrow> u32 \<Rightarrow> nat \<Rightarrow> 'a heap \<Rightarrow> 'a heap" where
  "shuffle_loop_heap 0 seed p h = h"
| "shuffle_loop_heap (Suc k) seed p h =
     (let (u, seed') = mulberry32 seed;
          i = Suc k;
          j = randIndex u (i + 1);
          a = h ! p
      in shuffle_loop_heap k seed' p (h[p := (a[i := a ! j])[j := a ! i]]))"

definition stableShuffle_heap :: "'a heap \<Rightarrow> nat \<Rightarrow> string \<Rightarrow> nat \<times> 'a heap" where
  "stableShuffle_heap h arr seedStr =
     (let a = length h;
          h1 = h @ [h ! arr]
      in (a, shuffle_loop_heap (length (h ! arr) - 1) (hash32 seedStr) a h1))"

subsection \<open>Frontend: the next pair\<close>

text \<open>The fields of a history entry that \<^verbatim>\<open>nextPair\<close> reads; a missing \<^verbatim>\<open>trial_id\<close> is \<^term>\<open>None\<close>.\<close>

record vote =
  participant_id :: string
  component :: string
  trial_id :: "int option"
  left_method_id :: string
  right_method_id :: string
  preferred :: string

definition digitChar :: "nat \<Rightarrow> char" where
  "digitChar d = char_of (48 + d)"

text \<open>Decimal digits of a number that is not negative; the arithmetic is on \<^typ>\<open>int\<close>.\<close>

function showPos :: "int \<Rightarrow> string" where
  "showPos n = (if n < 10 then [digitChar (nat n)] else showPos (n div 10) @ [digitChar (nat (n mod 10))])"
  by pat_completeness auto
termination
  by (relation "measure nat") auto

declare showPos.simps [simp del]

definition showNat :: "nat \<Rightarrow> string" where
  "showNat n = showPos (int n)"

definition trialKey :: "'a vote_scheme \<Rightarrow> int" where
  "trialKey r = (case trial_id r of None \<Rightarrow> 0 | Some t \<Rightarrow> t)"

definition matching :: "string \<Rightarrow> string \<Rightarrow> 'a vote_scheme list \<Rightarrow> 'a vote_scheme list" where
  "matching pid cmpt history = filter (\<lambda>r. participant_id r = pid \<and> component r = cmpt) history"

definition champion_of :: "'a vote_scheme \<Rightarrow> string" where
  "champion_of r = (if preferred r = ''left'' then left_method_id r else right_method_id r)"

text \<open>A JavaScript \<^verbatim>\<open>Set\<close> of strings, in insertion order; \<^verbatim>\<open>size\<close> is the length.\<close>

definition set_add :: "string \<Rightarrow> string list \<Rightarrow> string list" where
  "set_add x s = (if x \<in> set s then s else s @ [x])"

fun appeared_of :: "'a vote_scheme list \<Rightarrow> string list \<Rightarrow> string list" where
  "appeared_of [] s = s"
| "appeared_of (r # rs) s = appeared_of rs (set_add (right_method_id r) (set_add (left_method_id r) s))"

text \<open>
  \<^verbatim>\<open>nextPair\<close> of the current frontend. \<^verbatim>\<open>Array.prototype.sort\<close> is stable and the
  comparator orders by \<^verbatim>\<open>trial_id ?? 0\<close>, which \<^term>\<open>sort_key\<close> computes. \<^verbatim>\<open>null\<close> is \<^term>\<open>None\<close>.
\<close>

definition nextPair :: "string \<Rightarrow> string \<Rightarrow> string list \<Rightarrow> 'a vote_scheme list \<Rightarrow> (string \<times> string) option" where
  "nextPair pid cmpt methodIds history =
     (if pid = [] \<or> length methodIds < 2 then None
      else
        let rows = sort_key trialKey (matching pid cmpt history) in
        if rows = [] then
          (let shuffled = stableShuffle methodIds (pid @ ''::'' @ cmpt)
           in Some (shuffled ! 0, shuffled ! 1))
        else
          let lastRow = last rows;
              champion = champion_of lastRow;
              appeared = appeared_of rows [];
              unseen = filter (\<lambda>m. m \<notin> set appeared \<and> m \<noteq> champion) methodIds
          in if unseen = [] then None
             else
               let (u, seed') = mulberry32 (hash32 (pid @ ''::'' @ cmpt @ ''::'' @ showNat (length appeared)));
                   challenger = unseen ! randIndex u (length unseen)
               in Some (champion, challenger))"

text \<open>\<^verbatim>\<open>nextPair\<close> of the earlier frontend: no shuffle, no sort, the challenger by position.\<close>

definition nextPair_v0 :: "string \<Rightarrow> string \<Rightarrow> string list \<Rightarrow> 'a vote_scheme list \<Rightarrow> (string \<times> string) option" where
  "nextPair_v0 pid cmpt methodIds history =
     (if length methodIds < 2 then None
      else
        let rows = matching pid cmpt history in
        if rows = [] then Some (methodIds ! 0, methodIds ! 1)
        else
          let lastRow = last rows;
              champion = champion_of lastRow;
              appeared = appeared_of rows [];
              unseen = filter (\<lambda>m. m \<notin> set appeared \<and> m \<noteq> champion) methodIds
          in if unseen = [] then None
             else Some (champion, unseen ! (length rows mod length unseen)))"

subsection \<open>Worker: strings\<close>

text \<open>\<^verbatim>\<open>s.split(sep)\<close> for a one-character separator: never empty, \<^verbatim>\<open>"".split(",")\<close> is \<^verbatim>\<open>[""]\<close>.\<close>

fun split_on :: "char \<Rightarrow> string \<Rightarrow> string list" where
  "split_on sep [] = [[]]"
| "split_on sep (c # cs) =
     (if c = sep then [] # split_on sep cs
      else (case split_on sep cs of [] \<Rightarrow> [[c]] | p # ps \<Rightarrow> (c # p) # ps))"

text \<open>The white space that \<^verbatim>\<open>trim\<close> removes, among the code units below 256.\<close>

definition js_space :: "char \<Rightarrow> bool" where
  "js_space c = (of_char c \<in> {9, 10, 11, 12, 13, 32, 160 :: nat})"

definition trim :: "string \<Rightarrow> string" where
  "trim s = rev (dropWhile js_space (rev (dropWhile js_space s)))"

definition lower_char :: "char \<Rightarrow> char" where
  "lower_char c =
     (let n = (of_char c :: nat)
      in if (65 \<le> n \<and> n \<le> 90) \<or> (192 \<le> n \<and> n \<le> 222 \<and> n \<noteq> 215) then char_of (n + 32) else c)"

definition toLowerCase :: "string \<Rightarrow> string" where
  "toLowerCase s = map lower_char s"

definition ends_with :: "string \<Rightarrow> string \<Rightarrow> bool" where
  "ends_with s suffix = (length suffix \<le> length s \<and> drop (length s - length suffix) s = suffix)"

definition showInt :: "int \<Rightarrow> string" where
  "showInt n = (if n < 0 then CHR ''-'' # showPos (- n) else showPos n)"

subsection \<open>Worker: JavaScript values and the platform\<close>

text \<open>
  Values as \<^verbatim>\<open>JSON.parse\<close> yields them; \<^verbatim>\<open>undefined\<close> is \<^term>\<open>None\<close> of a
  \<^typ>\<open>'a option\<close>. An object is the list of its own properties.
\<close>

datatype json =
    JNull
  | JBool bool
  | JNum int
  | JStr string
  | JArr "json list"
  | JObj "(string \<times> json) list"

datatype native_error = TypeError | SyntaxError | InvalidCharacterError | DataError

text \<open>A thrown value: \<^verbatim>\<open>new Error(msg)\<close> of the worker, or an error raised by the runtime.\<close>

datatype exn = Error string | Native native_error

type_synonym byte = "8 word"

text \<open>
  What the worker calls and does not define: the digest and the MAC of
  \<^verbatim>\<open>crypto.subtle\<close> (on the UTF-8 bytes of their string arguments), \<^verbatim>\<open>JSON.stringify\<close>
  followed by \<^verbatim>\<open>TextEncoder\<close>, \<^verbatim>\<open>TextDecoder\<close> followed by \<^verbatim>\<open>JSON.parse\<close> (\<^term>\<open>None\<close>
  when it throws), \<^verbatim>\<open>Date.parse\<close> (\<^term>\<open>None\<close> for \<^verbatim>\<open>NaN\<close>), \<^verbatim>\<open>toISOString\<close>, the
  conversions \<^verbatim>\<open>String(v)\<close> of arrays and objects and \<^verbatim>\<open>Number(v)\<close> of strings, arrays
  and objects, and the message texts of the runtime's own errors. The MAC is called with a key that is
  not empty only; the store is taken to answer every statement.
\<close>

record platform =
  sha256 :: "string \<Rightarrow> byte list"
  hmacSha256 :: "string \<Rightarrow> string \<Rightarrow> byte list"
  jsonStringify :: "json \<Rightarrow> byte list"
  jsonParse :: "byte list \<Rightarrow> json option"
  dateParse :: "string \<Rightarrow> int option"
  toISOString :: "int \<Rightarrow> string"
  toStringOf :: "json \<Rightarrow> string"
  toNumberOf :: "json \<Rightarrow> int option"
  nativeMessage :: "native_error \<Rightarrow> string"

definition message :: "platform \<Rightarrow> exn \<Rightarrow> string" where
  "message pf e = (case e of Error m \<Rightarrow> m | Native k \<Rightarrow> nativeMessage pf k)"

text \<open>\<^verbatim>\<open>v[k]\<close> for a value other than \<^verbatim>\<open>null\<close> and a key that no prototype defines.\<close>

definition js_prop :: "json \<Rightarrow> string \<Rightarrow> json option" where
  "js_prop v k = (case v of JObj kvs \<Rightarrow> map_of kvs k | _ \<Rightarrow> None)"

text \<open>\<^verbatim>\<open>v.k\<close>: reading a property of \<^verbatim>\<open>null\<close> throws a \<^verbatim>\<open>TypeError\<close>.\<close>

definition jsGet :: "json \<Rightarrow> string \<Rightarrow> exn + json option" where
  "jsGet v k = (if v = JNull then Inl (Native TypeError) else Inr (js_prop v k))"

fun truthy :: "json option \<Rightarrow> bool" where
  "truthy None = False"
| "truthy (Some JNull) = False"
| "truthy (Some (JBool b)) = b"
| "truthy (Some (JNum n)) = (n \<noteq> 0)"
| "truthy (Some (JStr s)) = (s \<noteq> [])"
| "truthy (Some (JArr xs)) = True"
| "truthy (Some (JObj kvs)) = True"

text \<open>\<^verbatim>\<open>x || ""\<close>.\<close>

definition or_empty :: "json option \<Rightarrow> json" where
  "or_empty x = (case x of None \<Rightarrow> JStr [] | Some v \<Rightarrow> if truthy (Some v) then v else JStr [])"

text \<open>\<^verbatim>\<open>String(v)\<close>; integers print in decimal (below \<open>10\<^sup>2\<^sup>1\<close> in magnitude).\<close>

definition jsString :: "platform \<Rightarrow> json option \<Rightarrow> string" where
  "jsString pf x =
     (case x of
        None \<Rightarrow> ''undefined''
      | Some JNull \<Rightarrow> ''null''
      | Some (JBool b) \<Rightarrow> (if b then ''true'' else ''false'')
      | Some (JNum n) \<Rightarrow> showInt n
      | Some (JStr s) \<Rightarrow> s
      | Some v \<Rightarrow> toStringOf pf v)"

text \<open>\<^verbatim>\<open>Number(v)\<close>; \<^term>\<open>None\<close> is \<^verbatim>\<open>NaN\<close>.\<close>

definition jsNumber :: "platform \<Rightarrow> json option \<Rightarrow> int option" where
  "jsNumber pf x =
     (case x of
        None \<Rightarrow> None
      | Some JNull \<Rightarrow> Some 0
      | Some (JBool b) \<Rightarrow> Some (if b then 1 else 0)
      | Some (JNum n) \<Rightarrow> Some n
      | Some v \<Rightarrow> toNumberOf pf v)"

definition numToString :: "int option \<Rightarrow> string" where
  "numToString n = (case n of None \<Rightarrow> ''NaN'' | Some i \<Rightarrow> showInt i)"

text \<open>\<^verbatim>\<open>now > x\<close> for a number \<^verbatim>\<open>now\<close>: the other side is converted to a number, and a
  comparison with \<^verbatim>\<open>NaN\<close> is false.\<close>

definition js_gt :: "platform \<Rightarrow> int \<Rightarrow> json option \<Rightarrow> bool" where
  "js_gt pf now x = (case jsNumber pf x of None \<Rightarrow> False | Some e \<Rightarrow> now > e)"

subsection \<open>Worker: base64\<close>

definition b64_alphabet :: string where
  "b64_alphabet = ''ABCDEFGHIJKLMNOPQRSTUVWXYZabcdefghijklmnopqrstuvwxyz0123456789+/''"

definition b64_char :: "nat \<Rightarrow> char" where
  "b64_char n = b64_alphabet ! n"

definition b64_index :: "char \<Rightarrow> nat option" where
  "b64_index c = map_of (zip b64_alphabet [0 ..< 64]) c"

text \<open>\<^verbatim>\<open>btoa\<close> on the binary string of the bytes.\<close>

fun btoa :: "byte list \<Rightarrow> string" where
  "btoa [] = []"
| "btoa [a] =
     (let x = unat a
      in [b64_char (x div 4), b64_char ((x mod 4) * 16), CHR ''='', CHR ''=''])"
| "btoa [a, b] =
     (let x = unat a; y = unat b
      in [b64_char (x div 4), b64_char ((x mod 4) * 16 + y div 16), b64_char ((y mod 16) * 4),
          CHR ''=''])"
| "btoa (a # b # c # rest) =
     (let x = unat a; y = unat b; z = unat c
      in [b64_char (x div 4), b64_char ((x mod 4) * 16 + y div 16),
          b64_char ((y mod 16) * 4 + z div 64), b64_char (z mod 64)] @ btoa rest)"

text \<open>The six-bit groups that \<^term>\<open>btoa\<close> writes, before the padding.\<close>

fun b64_sextets :: "byte list \<Rightarrow> nat list" where
  "b64_sextets [] = []"
| "b64_sextets [a] = (let x = unat a in [x div 4, (x mod 4) * 16])"
| "b64_sextets [a, b] =
     (let x = unat a; y = unat b in [x div 4, (x mod 4) * 16 + y div 16, (y mod 16) * 4])"
| "b64_sextets (a # b # c # rest) =
     (let x = unat a; y = unat b; z = unat c
      in [x div 4, (x mod 4) * 16 + y div 16, (y mod 16) * 4 + z div 64, z mod 64] @ b64_sextets rest)"

text \<open>
  \<^verbatim>\<open>atob\<close>, the forgiving base64 decoding: ASCII white space is dropped, up to two
  padding characters are removed from an input of a length divisible by four, a
  remaining length of one modulo four or a character outside the alphabet fails
  (\<^verbatim>\<open>InvalidCharacterError\<close>), and the bits that do not fill a byte are discarded.
\<close>

definition ascii_ws :: "char \<Rightarrow> bool" where
  "ascii_ws c = (of_char c \<in> {9, 10, 12, 13, 32 :: nat})"

definition strip_pad :: "string \<Rightarrow> string" where
  "strip_pad d =
     (case rev d of
        [] \<Rightarrow> d
      | c1 # r1 \<Rightarrow>
          if c1 = CHR ''='' then
            (case r1 of
               [] \<Rightarrow> rev r1
             | c2 # r2 \<Rightarrow> if c2 = CHR ''='' then rev r2 else rev r1)
          else d)"

fun decode_sextets :: "nat list \<Rightarrow> byte list" where
  "decode_sextets (p # q # r # s # rest) =
     [of_nat (p * 4 + q div 16), of_nat ((q mod 16) * 16 + r div 4), of_nat ((r mod 4) * 64 + s)]
       @ decode_sextets rest"
| "decode_sextets [p, q, r] = [of_nat (p * 4 + q div 16), of_nat ((q mod 16) * 16 + r div 4)]"
| "decode_sextets [p, q] = [of_nat (p * 4 + q div 16)]"
| "decode_sextets [p] = []"
| "decode_sextets [] = []"

definition atob :: "string \<Rightarrow> byte list option" where
  "atob data =
     (let d1 = filter (\<lambda>c. \<not> ascii_ws c) data;
          d2 = (if length d1 mod 4 = 0 then strip_pad d1 else d1)
      in if length d2 mod 4 = 1 then None
         else (case those (map b64_index d2) of
                 None \<Rightarrow> None
               | Some sextets \<Rightarrow> Some (decode_sextets sextets)))"

definition replace_char :: "char \<Rightarrow> char \<Rightarrow> string \<Rightarrow> string" where
  "replace_char x y s = map (\<lambda>c. if c = x then y else c) s"

text \<open>\<^verbatim>\<open>s.replace(/=+$/g, "")\<close>.\<close>

definition strip_trailing_eq :: "string \<Rightarrow> string" where
  "strip_trailing_eq s = rev (dropWhile (\<lambda>c. c = CHR ''='') (rev s))"

definition base64UrlEncode :: "byte list \<Rightarrow> string" where
  "base64UrlEncode bytes =
     strip_trailing_eq (replace_char CHR ''/'' CHR ''_'' (replace_char CHR ''+'' CHR ''-'' (btoa bytes)))"

definition hex_digit :: "nat \<Rightarrow> char" where
  "hex_digit n = ''0123456789abcdef'' ! n"

definition sha256Hex :: "platform \<Rightarrow> string \<Rightarrow> string" where
  "sha256Hex pf s = concat (map (\<lambda>b. [hex_digit (unat b div 16), hex_digit (unat b mod 16)]) (sha256 pf s))"

subsection \<open>Worker: tokens\<close>

record Env =
  TOKEN_SECRET :: string
  ALLOWED_ORIGINS :: string

text \<open>\<^verbatim>\<open>hmacSign\<close>: \<^verbatim>\<open>crypto.subtle.importKey\<close> throws a \<^verbatim>\<open>DataError\<close> for a key of length zero.\<close>

definition hmacSign :: "platform \<Rightarrow> string \<Rightarrow> string \<Rightarrow> exn + string" where
  "hmacSign pf secret data =
     (if secret = [] then Inl (Native DataError)
      else Inr (base64UrlEncode (hmacSha256 pf secret data)))"

definition b64Json :: "platform \<Rightarrow> json \<Rightarrow> string" where
  "b64Json pf obj = base64UrlEncode (jsonStringify pf obj)"

definition fromB64Json :: "platform \<Rightarrow> string \<Rightarrow> exn + json" where
  "fromB64Json pf s =
     (let b64 = replace_char CHR ''_'' CHR ''/'' (replace_char CHR ''-'' CHR ''+'' s)
                  @ drop ((length s + 3) mod 4) ''===''
      in case atob b64 of
           None \<Rightarrow> Inl (Native InvalidCharacterError)
         | Some bytes \<Rightarrow>
             (case jsonParse pf bytes of
                None \<Rightarrow> Inl (Native SyntaxError)
              | Some v \<Rightarrow> Inr v))"

definition makeToken :: "platform \<Rightarrow> Env \<Rightarrow> json \<Rightarrow> exn + string" where
  "makeToken pf env payload =
     (let body = b64Json pf payload
      in case hmacSign pf (TOKEN_SECRET env) body of
           Inl e \<Rightarrow> Inl e
         | Inr sig \<Rightarrow> Inr (body @ ''.'' @ sig))"

text \<open>
  \<^verbatim>\<open>verifyToken\<close>; \<open>now\<close> is the value of \<^verbatim>\<open>Date.now()\<close>. \<^verbatim>\<open>[body, sig] = token.split(".")\<close>
  takes the first two parts, the second being \<^verbatim>\<open>undefined\<close> when there is one only.
\<close>

definition verifyToken :: "platform \<Rightarrow> Env \<Rightarrow> int \<Rightarrow> string \<Rightarrow> exn + json" where
  "verifyToken pf env now token =
     (case split_on CHR ''.'' token of
        [] \<Rightarrow> Inl (Error ''Bad token format'')
      | body # rest \<Rightarrow>
          (case rest of
             [] \<Rightarrow> Inl (Error ''Bad token format'')
           | sig # others \<Rightarrow>
               if body = [] \<or> sig = [] then Inl (Error ''Bad token format'')
               else
                 (case hmacSign pf (TOKEN_SECRET env) body of
                    Inl e \<Rightarrow> Inl e
                  | Inr expected \<Rightarrow>
                      if expected \<noteq> sig then Inl (Error ''Bad token signature'')
                      else
                        (case fromB64Json pf body of
                           Inl e \<Rightarrow> Inl e
                         | Inr payload \<Rightarrow>
                             (case jsGet payload ''exp'' of
                                Inl e \<Rightarrow> Inl e
                              | Inr ex \<Rightarrow>
                                  if truthy ex \<and> js_gt pf now ex then Inl (Error ''Token expired'')
                                  else Inr payload)))))"


subsection \<open>Worker: the store\<close>

record AccessCodeRow =
  code_hash :: string
  active :: int
  uses_remaining :: "int option"
  expires_at :: "string option"

text \<open>
  A \<^verbatim>\<open>VoteRow\<close>: the fields of a vote, the identifier (\<^verbatim>\<open>id\<close> in the source) and the rest.
  \<^verbatim>\<open>trial_id\<close> is \<^term>\<open>None\<close> for \<^verbatim>\<open>NaN\<close>; \<^verbatim>\<open>user_agent\<close> and \<^verbatim>\<open>page_url\<close> are optional.
\<close>

record VoteRow = vote +
  id_key :: string
  timestamp_utc :: string
  user_agent :: "string option"
  page_url :: "string option"
  received_at :: string

text \<open>The two tables, each the list of its rows.\<close>

record db =
  access_codes :: "AccessCodeRow list"
  votes :: "VoteRow list"

text \<open>\<^verbatim>\<open>SELECT ... WHERE code_hash = ?\<close> with \<^verbatim>\<open>first()\<close>.\<close>

definition dbGetAccessCode :: "db \<Rightarrow> string \<Rightarrow> AccessCodeRow option" where
  "dbGetAccessCode d codeHash = find (\<lambda>r. code_hash r = codeHash) (access_codes d)"

text \<open>\<^verbatim>\<open>UPDATE access_codes SET uses_remaining = uses_remaining - 1
  WHERE code_hash = ? AND uses_remaining IS NOT NULL AND uses_remaining > 0\<close>.\<close>

definition dbDecrementUsesRemaining :: "db \<Rightarrow> string \<Rightarrow> db" where
  "dbDecrementUsesRemaining d codeHash =
     d\<lparr>access_codes :=
         map (\<lambda>r. case uses_remaining r of
                     None \<Rightarrow> r
                   | Some u \<Rightarrow>
                       if code_hash r = codeHash \<and> u > 0 then r\<lparr>uses_remaining := Some (u - 1)\<rparr>
                       else r)
           (access_codes d)\<rparr>"

definition normalizePreferred :: "string \<Rightarrow> exn + string" where
  "normalizePreferred p =
     (let v = trim (toLowerCase p)
      in if v = ''left'' \<or> v = ''top'' then Inr ''left''
         else if v = ''right'' \<or> v = ''bottom'' then Inr ''right''
         else Inl (Error ''preferred must be one of: left/right (or top/bottom)''))"

text \<open>The values that \<^verbatim>\<open>dbUpsertVote\<close> binds: \<^verbatim>\<open>row.user_agent ?? ""\<close>, \<^verbatim>\<open>row.page_url ?? ""\<close>.\<close>

definition bound_values :: "VoteRow \<Rightarrow> VoteRow" where
  "bound_values row =
     row\<lparr>user_agent := Some (case user_agent row of None \<Rightarrow> [] | Some s \<Rightarrow> s),
         page_url := Some (case page_url row of None \<Rightarrow> [] | Some s \<Rightarrow> s)\<rparr>"

text \<open>
  \<^verbatim>\<open>INSERT INTO votes ... ON CONFLICT(id) DO UPDATE SET\<close> every other column to the
  excluded value: a row with the identifier is updated in place, otherwise the row is added.
\<close>

definition dbUpsertVote :: "db \<Rightarrow> VoteRow \<Rightarrow> db" where
  "dbUpsertVote d row =
     (let excluded = bound_values row
      in if list_ex (\<lambda>r. id_key r = id_key excluded) (votes d) then
           d\<lparr>votes :=
               map (\<lambda>r. if id_key r = id_key excluded then
                           r\<lparr>participant_id := participant_id excluded,
                             component := component excluded,
                             trial_id := trial_id excluded,
                             left_method_id := left_method_id excluded,
                             right_method_id := right_method_id excluded,
                             preferred := preferred excluded,
                             timestamp_utc := timestamp_utc excluded,
                             user_agent := user_agent excluded,
                             page_url := page_url excluded,
                             received_at := received_at excluded\<rparr>
                         else r)
                 (votes d)\<rparr>
         else d\<lparr>votes := votes d @ [excluded]\<rparr>)"

subsection \<open>Worker: the handler\<close>

text \<open>
  A request as the handler reads it: the method, the \<^verbatim>\<open>Origin\<close> header, the path of the
  URL, and the result of \<^verbatim>\<open>req.json()\<close> (\<^term>\<open>None\<close> when it rejects).
\<close>

record request =
  req_method :: string
  req_origin :: "string option"
  req_path :: string
  req_body :: "json option"

text \<open>A response: the status, the headers, and the value whose JSON text is the body
  (\<^term>\<open>None\<close> for the empty body).\<close>

record response =
  status :: nat
  headers :: "(string \<times> string) list"
  content :: "json option"

definition cors :: "string \<Rightarrow> (string \<times> string) list" where
  "cors origin =
     [(''Access-Control-Allow-Origin'', origin),
      (''Access-Control-Allow-Methods'', ''POST,OPTIONS''),
      (''Access-Control-Allow-Headers'', ''Content-Type''),
      (''Access-Control-Max-Age'', ''86400''),
      (''Content-Type'', ''application/json'')]"

definition originAllowed :: "Env \<Rightarrow> string \<Rightarrow> bool" where
  "originAllowed env origin =
     (let allowed = filter (\<lambda>s. s \<noteq> []) (map trim (split_on CHR '','' (ALLOWED_ORIGINS env)))
      in origin \<noteq> [] \<and> origin \<in> set allowed)"

definition json_response :: "nat \<Rightarrow> json \<Rightarrow> string \<Rightarrow> response" where
  "json_response st v origin = \<lparr>status = st, headers = cors origin, content = Some v\<rparr>"

definition error_response :: "nat \<Rightarrow> string \<Rightarrow> string \<Rightarrow> response" where
  "error_response st msg origin = json_response st (JObj [(''error'', JStr msg)]) origin"

text \<open>The three checks of \<^verbatim>\<open>/api/start\<close> on \<^verbatim>\<open>expires_at\<close>: the status and message of the
  response that ends the request, if any.\<close>

definition expiry_error :: "platform \<Rightarrow> int \<Rightarrow> AccessCodeRow \<Rightarrow> (nat \<times> string) option" where
  "expiry_error pf now doc =
     (case expires_at doc of
        None \<Rightarrow> None
      | Some s \<Rightarrow>
          if s = [] then None
          else
            (case dateParse pf s of
               None \<Rightarrow> Some (500, ''Bad expires_at format in DB'')
             | Some expMs \<Rightarrow> if now > expMs then Some (403, ''Code expired'') else None))"

text \<open>
  The branch \<^verbatim>\<open>POST /api/start\<close>. The result is the response, or the exception that
  leaves the handler, and the store after the request. \<open>now\<close> is the clock of the request.
  The uses are decremented before the token is made, so an exception of \<^verbatim>\<open>makeToken\<close> leaves
  the decremented store.
\<close>

definition handle_start :: "platform \<Rightarrow> Env \<Rightarrow> int \<Rightarrow> string \<Rightarrow> request \<Rightarrow> db \<Rightarrow> (exn + response) \<times> db" where
  "handle_start pf env now origin req d =
     (let body = (case req_body req of None \<Rightarrow> JObj [] | Some b \<Rightarrow> b)
      in case jsGet body ''code'' of
           Inl e \<Rightarrow> (Inl e, d)
         | Inr c \<Rightarrow>
             let code = trim (jsString pf (Some (or_empty c)))
             in if code = [] then (Inr (error_response 400 ''Missing code'' origin), d)
                else
                  let codeHash = sha256Hex pf code
                  in case dbGetAccessCode d codeHash of
                       None \<Rightarrow> (Inr (error_response 403 ''Invalid code'' origin), d)
                     | Some doc \<Rightarrow>
                         if active doc \<noteq> 1 then
                           (Inr (error_response 403 ''Code inactive'' origin), d)
                         else if (case uses_remaining doc of None \<Rightarrow> False | Some u \<Rightarrow> u \<le> 0) then
                           (Inr (error_response 403 ''Code has no remaining uses'' origin), d)
                         else
                           (case expiry_error pf now doc of
                              Some (st, msg) \<Rightarrow> (Inr (error_response st msg origin), d)
                            | None \<Rightarrow>
                                let d' = (if uses_remaining doc \<noteq> None
                                          then dbDecrementUsesRemaining d codeHash else d)
                                in case makeToken pf env
                                          (JObj [(''codeHash'', JStr codeHash),
                                                 (''exp'', JNum (now + 12 * 60 * 60 * 1000))]) of
                                     Inl e \<Rightarrow> (Inl e, d')
                                   | Inr token \<Rightarrow>
                                       (Inr (json_response 200
                                              (JObj [(''ok'', JBool True), (''token'', JStr token)]) origin),
                                        d')))"

definition required_fields :: "string list" where
  "required_fields =
     [''participant_id'', ''component'', ''trial_id'', ''left_method_id'', ''right_method_id'',
      ''preferred'', ''timestamp_utc'']"

text \<open>\<^verbatim>\<open>vote[k] === undefined || vote[k] === null || vote[k] === ""\<close>.\<close>

definition is_missing :: "json option \<Rightarrow> bool" where
  "is_missing x = (x = None \<or> x = Some JNull \<or> x = Some (JStr []))"

text \<open>The row that \<^verbatim>\<open>/api/vote\<close> builds from a vote and the normalized preference.\<close>

definition vote_row :: "platform \<Rightarrow> int \<Rightarrow> json \<Rightarrow> string \<Rightarrow> VoteRow" where
  "vote_row pf now v pref =
     (let participant = jsString pf (js_prop v ''participant_id'');
          cmpt = jsString pf (js_prop v ''component'');
          trial = jsNumber pf (js_prop v ''trial_id'');
          docId = participant @ ''__'' @ cmpt @ ''__'' @ numToString trial
      in \<lparr>participant_id = participant,
          component = cmpt,
          trial_id = trial,
          left_method_id = jsString pf (js_prop v ''left_method_id''),
          right_method_id = jsString pf (js_prop v ''right_method_id''),
          preferred = pref,
          id_key = docId,
          timestamp_utc = jsString pf (js_prop v ''timestamp_utc''),
          user_agent = Some (jsString pf (Some (or_empty (js_prop v ''user_agent'')))),
          page_url = Some (jsString pf (Some (or_empty (js_prop v ''page_url'')))),
          received_at = toISOString pf now\<rparr>)"

text \<open>The branch \<^verbatim>\<open>POST /api/vote\<close>.\<close>

definition handle_vote :: "platform \<Rightarrow> Env \<Rightarrow> int \<Rightarrow> string \<Rightarrow> request \<Rightarrow> db \<Rightarrow> (exn + response) \<times> db" where
  "handle_vote pf env now origin req d =
     (let body = (case req_body req of None \<Rightarrow> JObj [] | Some b \<Rightarrow> b)
      in case jsGet body ''token'' of
           Inl e \<Rightarrow> (Inl e, d)
         | Inr t \<Rightarrow>
             let token = jsString pf (Some (or_empty t));
                 vt = js_prop body ''vote''
             in if token = [] \<or> \<not> truthy vt then
                  (Inr (error_response 400 ''Missing token or vote'' origin), d)
                else
                  (case verifyToken pf env now token of
                     Inl e \<Rightarrow>
                       (Inr (error_response 403
                              (if message pf e = [] then ''Invalid token'' else message pf e) origin), d)
                   | Inr payload \<Rightarrow>
                       let v = (case vt of None \<Rightarrow> JNull | Some x \<Rightarrow> x)
                       in case find (\<lambda>k. is_missing (js_prop v k)) required_fields of
                            Some k \<Rightarrow> (Inr (error_response 400 (''Missing field: '' @ k) origin), d)
                          | None \<Rightarrow>
                              (case normalizePreferred (jsString pf (js_prop v ''preferred'')) of
                                 Inl e \<Rightarrow> (Inr (error_response 400 (message pf e) origin), d)
                               | Inr pref \<Rightarrow>
                                   (Inr (json_response 200 (JObj [(''ok'', JBool True)]) origin),
                                    dbUpsertVote d (vote_row pf now v pref)))))"

text \<open>The handler. \<^verbatim>\<open>req.headers.get("Origin") || ""\<close> is the empty string for a missing
  header.\<close>

definition fetch :: "platform \<Rightarrow> Env \<Rightarrow> int \<Rightarrow> request \<Rightarrow> db \<Rightarrow> (exn + response) \<times> db" where
  "fetch pf env now req d =
     (let origin = (case req_origin req of None \<Rightarrow> [] | Some s \<Rightarrow> s)
      in if req_method req = ''OPTIONS'' then
           (Inr \<lparr>status = 204,
                 headers = (if originAllowed env origin then cors origin else []),
                 content = None\<rparr>, d)
         else if \<not> originAllowed env origin then
           (Inr (error_response 403 ''Origin not allowed'' origin), d)
         else if req_method req \<noteq> ''POST'' then
           (Inr (error_response 405 ''Method not allowed'' origin), d)
         else if ends_with (req_path req) ''/api/start'' then handle_start pf env now origin req d
         else if ends_with (req_path req) ''/api/vote'' then handle_vote pf env now origin req d
         else (Inr (error_response 404 ''Not found'' origin), d))"

text \<open>A sequence of requests, each with the clock at its arrival; the store is threaded
  through, and an exception leaves it as the handler left it.\<close>

fun serve :: "platform \<Rightarrow> Env \<Rightarrow> (int \<times> request) list \<Rightarrow> db \<Rightarrow> db" where
  "serve pf env [] d = d"
| "serve pf env ((now, req) # rest) d = serve pf env rest (snd (fetch pf env now req d))"


subsection \<open>An example platform\<close>

text \<open>
  A concrete platform on which the definitions above can be run on examples. The JSON
  text is written without escapes and read back by comparison with the texts of a fixed
  list of documents; the digest and the MAC are short stand-ins for SHA-256 and
  HMAC-SHA-256; two dates are known to the date parser; the empty string is the one
  string with a number, zero.
\<close>

definition ascii_bytes :: "string \<Rightarrow> byte list" where
  "ascii_bytes s = map (\<lambda>c. of_nat (of_char c)) s"

fun join_with :: "string \<Rightarrow> string list \<Rightarrow> string" where
  "join_with sep [] = []"
| "join_with sep [x] = x"
| "join_with sep (x # y # rest) = x @ sep @ join_with sep (y # rest)"

fun json_text :: "json \<Rightarrow> string" where
  "json_text JNull = ''null''"
| "json_text (JBool b) = (if b then ''true'' else ''false'')"
| "json_text (JNum n) = showInt n"
| "json_text (JStr s) = [CHR 0x22] @ s @ [CHR 0x22]"
| "json_text (JArr xs) = ''['' @ join_with '','' (map json_text xs) @ '']''"
| "json_text (JObj kvs) =
     ''{'' @ join_with '','' (map (\<lambda>kv. [CHR 0x22] @ fst kv @ [CHR 0x22] @ '':'' @ json_text (snd kv)) kvs)
       @ ''}''"

definition example_docs :: "json list" where
  "example_docs =
     [JNull,
      JObj [(''exp'', JNum 0)],
      JObj [(''exp'', JBool False)],
      JObj [(''exp'', JNull)],
      JObj [(''exp'', JStr [])],
      JObj [(''exp'', JNum 5)],
      JObj [(''codeHash'', JStr ''04c0''), (''exp'', JNum 43201000)],
      JObj [(''codeHash'', JStr ''04c0'')]]"

definition example_digest :: "string \<Rightarrow> byte list" where
  "example_digest s = [of_int (int (length s)), of_int (sum_list (map of_char s))]"

definition example_platform :: platform where
  "example_platform =
     \<lparr>sha256 = example_digest,
      hmacSha256 = (\<lambda>key data. example_digest (key @ data)),
      jsonStringify = (\<lambda>v. ascii_bytes (json_text v)),
      jsonParse = (\<lambda>bs. find (\<lambda>v. ascii_bytes (json_text v) = bs) example_docs),
      dateParse = (\<lambda>s. if s = ''1970-01-01T00:00:02.000Z'' then Some 2000
                         else if s = ''1970-01-01T00:00:00.500Z'' then Some 500 else None),
      toISOString = (\<lambda>t. if t = 1000 then ''1970-01-01T00:00:01.000Z''
                           else if t = 2000 then ''1970-01-01T00:00:02.000Z''
                           else ''1970-01-01T00:00:00.000Z''),
      toStringOf = (\<lambda>v. ''[object Object]''),
      toNumberOf = (\<lambda>v. if v = JStr [] then Some 0 else None),
      nativeMessage = (\<lambda>k. ''runtime error'')\<rparr>"

definition example_env :: Env where
  "example_env = \<lparr>TOKEN_SECRET = ''k'', ALLOWED_ORIGINS = ''https://a.example, https://b.example''\<rparr>"

definition example_vote :: json where
  "example_vote =
     JObj [(''participant_id'', JStr ''P1''), (''component'', JStr ''kg''), (''trial_id'', JNum 1),
           (''left_method_id'', JStr ''m1''), (''right_method_id'', JStr ''m2''),
           (''preferred'', JStr ''Top''), (''timestamp_utc'', JStr ''t'')]"

definition example_db :: db where
  "example_db =
     \<lparr>access_codes =
        [\<lparr>code_hash = ''04c0'', active = 1, uses_remaining = Some 1, expires_at = None\<rparr>],
      votes = []\<rparr>"


section \<open>Properties\<close>

subsection \<open>The shuffle\<close>

lemma randIndex_less: "0 < n \<Longrightarrow> randIndex u n < n"
proof -
  assume n: "0 < n"
  have "uint u < 4294967296"
    using uint_bounded [of u] by simp
  then have "uint u * int n < 4294967296 * int n"
    using n by simp
  then have "(uint u * int n) div 4294967296 < int n"
    by (simp add: div_less_iff_less_mult)
  moreover have "0 \<le> (uint u * int n) div 4294967296"
    by (simp add: pos_imp_zdiv_nonneg_iff)
  ultimately show ?thesis
    unfolding randIndex_def by (simp only: nat_less_iff)
qed

lemma shuffle_loop_length: "length (shuffle_loop k seed a) = length a"
  by (induction k seed a rule: shuffle_loop.induct) (simp_all add: Let_def split: prod.splits)

lemma shuffle_loop_mset: "k < length a \<or> k = 0 \<Longrightarrow> mset (shuffle_loop k seed a) = mset a"
proof (induction k seed a rule: shuffle_loop.induct)
  case (1 seed a)
  show ?case by simp
next
  case (2 k seed a)
  obtain u seed' where m: "mulberry32 seed = (u, seed')"
    by (cases "mulberry32 seed")
  define j where "j = randIndex u (Suc k + 1)"
  define b where "b = (a[Suc k := a ! j])[j := a ! Suc k]"
  have i: "Suc k < length a"
    using "2.prems" by simp
  have j: "j < length a"
    using randIndex_less [of "Suc k + 1" u] i by (simp add: j_def)
  have "mset b = mset a"
    unfolding b_def using mset_swap [OF j i] .
  moreover have "mset (shuffle_loop k seed' b) = mset b"
    using "2.IH" [OF m [symmetric] refl refl refl] i by (simp add: b_def j_def)
  ultimately show ?case
    using m by (simp add: b_def j_def Let_def)
qed

lemma stableShuffle_length: "length (stableShuffle arr seedStr) = length arr"
  by (simp add: stableShuffle_def shuffle_loop_length)

lemma stableShuffle_mset: "mset (stableShuffle arr seedStr) = mset arr"
proof (cases arr)
  case Nil
  then show ?thesis by (simp add: stableShuffle_def)
next
  case (Cons x xs)
  then show ?thesis by (simp add: stableShuffle_def shuffle_loop_mset)
qed

lemma shuffle_loop_heap_eq:
  "p < length h \<Longrightarrow> shuffle_loop_heap k seed p h = h[p := shuffle_loop k seed (h ! p)]"
proof (induction k seed p h rule: shuffle_loop_heap.induct)
  case (1 seed p h)
  then show ?case by simp
next
  case (2 k seed p h)
  obtain u seed' where m: "mulberry32 seed = (u, seed')"
    by (cases "mulberry32 seed")
  show ?case
    using "2.IH" [OF m [symmetric] refl refl refl refl] "2.prems" m by (simp add: Let_def)
qed

text \<open>
  C10. \<^verbatim>\<open>stableShuffle\<close> returns a reordering of its input: the same elements with the
  same multiplicities, for every array and every seed string. Over the store, the
  returned array is a fresh one, and the input array and every other array of the store
  are as they were before the call.
\<close>

theorem stableShuffle_permutation:
  "mset (stableShuffle xs seedStr) = mset xs \<and>
   (arr < length h \<longrightarrow>
     (case stableShuffle_heap h arr seedStr of
        (a, h') \<Rightarrow>
          a \<noteq> arr \<and> a < length h' \<and>
          h' ! arr = h ! arr \<and> take (length h) h' = h \<and>
          h' ! a = stableShuffle (h ! arr) seedStr \<and>
          mset (h' ! a) = mset (h ! arr)))"
proof (intro conjI impI)
  show "mset (stableShuffle xs seedStr) = mset xs"
    by (rule stableShuffle_mset)
next
  assume arr: "arr < length h"
  define h1 where "h1 = h @ [h ! arr]"
  have eq: "stableShuffle_heap h arr seedStr =
      (length h, h1[length h := stableShuffle (h ! arr) seedStr])"
    by (simp add: stableShuffle_heap_def Let_def h1_def shuffle_loop_heap_eq stableShuffle_def)
  show "case stableShuffle_heap h arr seedStr of
        (a, h') \<Rightarrow>
          a \<noteq> arr \<and> a < length h' \<and>
          h' ! arr = h ! arr \<and> take (length h) h' = h \<and>
          h' ! a = stableShuffle (h ! arr) seedStr \<and>
          mset (h' ! a) = mset (h ! arr)"
    using arr by (simp add: eq h1_def nth_append stableShuffle_mset)
qed

theorem stableShuffle_permutation_witness:
  "stableShuffle [''a'', ''b'', ''c'', ''d''] ''P1::action_space'' = [''b'', ''a'', ''c'', ''d''] \<and>
   mset (stableShuffle [''a'', ''b'', ''c'', ''d''] ''P1::action_space'') = mset [''a'', ''b'', ''c'', ''d''] \<and>
   (0::nat) < length [[''a'', ''b'', ''c'', ''d'']] \<and>
   stableShuffle_heap [[''a'', ''b'', ''c'', ''d'']] 0 ''P1::action_space''
     = (1, [[''a'', ''b'', ''c'', ''d''], [''b'', ''a'', ''c'', ''d'']])"
proof -
  have v: "stableShuffle [''a'', ''b'', ''c'', ''d''] ''P1::action_space'' = [''b'', ''a'', ''c'', ''d'']"
    by code_simp
  have h: "stableShuffle_heap [[''a'', ''b'', ''c'', ''d'']] 0 ''P1::action_space''
     = (1, [[''a'', ''b'', ''c'', ''d''], [''b'', ''a'', ''c'', ''d'']])"
    by code_simp
  show ?thesis
    using stableShuffle_permutation
      [of "[''a'', ''b'', ''c'', ''d'']" "''P1::action_space''" 0 "[[''a'', ''b'', ''c'', ''d'']]"]
      v h
    by simp
qed

subsection \<open>Champion and challenger\<close>

lemma set_appeared_of:
  "set (appeared_of rows s) = set s \<union> (\<Union>r\<in>set rows. {left_method_id r, right_method_id r})"
  by (induction rows s rule: appeared_of.induct) (auto simp: set_add_def)

lemma sorted_le_last: "sorted xs \<Longrightarrow> x \<in> set xs \<Longrightarrow> x \<le> last xs"
  by (induction xs) auto

lemma last_sort_key_max:
  assumes "xs \<noteq> []"
  shows "last (sort_key f xs) \<in> set xs \<and> (\<forall>x\<in>set xs. f x \<le> f (last (sort_key f xs)))"
proof -
  let ?ys = "sort_key f xs"
  have ne: "?ys \<noteq> []"
    using assms by (metis length_sort length_0_conv)
  have "last ?ys \<in> set ?ys"
    using ne by (rule last_in_set)
  then have mem: "last ?ys \<in> set xs"
    by simp
  have srt: "sorted (map f ?ys)"
    by (rule sorted_sort_key)
  have "f x \<le> f (last ?ys)" if "x \<in> set xs" for x
  proof -
    have "f x \<in> set (map f ?ys)"
      using that by simp
    then have "f x \<le> last (map f ?ys)"
      using srt by (rule sorted_le_last [rotated])
    then show ?thesis
      using ne by (simp add: last_map)
  qed
  with mem show ?thesis by blast
qed

lemma challenger_props:
  assumes "unseen = filter (\<lambda>m. m \<notin> set (appeared_of rows []) \<and> m \<noteq> champion) ms"
    and "i < length unseen"
    and "set rows = set (matching pid cmpt history)"
  shows "unseen ! i \<in> set ms \<and>
     (\<forall>r\<in>set history. participant_id r = pid \<and> component r = cmpt \<longrightarrow>
        unseen ! i \<noteq> left_method_id r \<and> unseen ! i \<noteq> right_method_id r) \<and>
     unseen ! i \<noteq> champion"
proof -
  have "unseen ! i \<in> set unseen"
    using assms(2) by simp
  then have m: "unseen ! i \<in> set ms" and a: "unseen ! i \<notin> set (appeared_of rows [])"
    and c: "unseen ! i \<noteq> champion"
    by (simp_all add: assms(1))
  have "unseen ! i \<noteq> left_method_id r \<and> unseen ! i \<noteq> right_method_id r"
    if "r \<in> set history" "participant_id r = pid \<and> component r = cmpt" for r
  proof -
    have "r \<in> set rows"
      using that by (simp add: assms(3) matching_def)
    then show ?thesis
      using a by (auto simp: set_appeared_of)
  qed
  with m c show ?thesis by blast
qed


lemma nextPair_Some:
  assumes mne: "matching pid cmpt history \<noteq> []"
    and res: "nextPair pid cmpt ms history = Some (a, b)"
  shows "a = champion_of (last (sort_key trialKey (matching pid cmpt history))) \<and> b \<in> set ms \<and>
     (\<forall>r\<in>set history. participant_id r = pid \<and> component r = cmpt \<longrightarrow>
        b \<noteq> left_method_id r \<and> b \<noteq> right_method_id r) \<and>
     b \<noteq> a"
proof -
  define rows where "rows = sort_key trialKey (matching pid cmpt history)"
  define unseen where
    "unseen = filter (\<lambda>m. m \<notin> set (appeared_of rows []) \<and> m \<noteq> champion_of (last rows)) ms"
  define u where
    "u = fst (mulberry32 (hash32 (pid @ ''::'' @ cmpt @ ''::'' @ showNat (length (appeared_of rows [])))))"
  have rne: "rows \<noteq> []"
    using mne by (metis rows_def length_sort length_0_conv)
  have rset: "set rows = set (matching pid cmpt history)"
    by (simp add: rows_def)
  from res rne have ne: "unseen \<noteq> []" and a: "a = champion_of (last rows)"
    and b: "b = unseen ! randIndex u (length unseen)"
    by (auto simp: nextPair_def Let_def split_beta rows_def [symmetric] unseen_def u_def
        split: if_splits)
  have "randIndex u (length unseen) < length unseen"
    using ne by (simp add: randIndex_less)
  from challenger_props [OF unseen_def this rset] a b show ?thesis
    by (simp add: rows_def)
qed

lemma nextPair_v0_Some:
  assumes mne: "matching pid cmpt history \<noteq> []"
    and res: "nextPair_v0 pid cmpt ms history = Some (a, b)"
  shows "a = champion_of (last (matching pid cmpt history)) \<and> b \<in> set ms \<and>
     (\<forall>r\<in>set history. participant_id r = pid \<and> component r = cmpt \<longrightarrow>
        b \<noteq> left_method_id r \<and> b \<noteq> right_method_id r) \<and>
     b \<noteq> a"
proof -
  define rows where "rows = matching pid cmpt history"
  define unseen where
    "unseen = filter (\<lambda>m. m \<notin> set (appeared_of rows []) \<and> m \<noteq> champion_of (last rows)) ms"
  from res mne have ne: "unseen \<noteq> []" and a: "a = champion_of (last rows)"
    and b: "b = unseen ! (length rows mod length unseen)"
    by (auto simp: nextPair_v0_def Let_def rows_def [symmetric] unseen_def split: if_splits)
  have "length rows mod length unseen < length unseen"
    using ne by simp
  from challenger_props [OF unseen_def this] a b show ?thesis
    by (simp add: rows_def)
qed

text \<open>
  C5. When the history holds at least one vote of the participant for the component and
  \<^verbatim>\<open>nextPair\<close> returns a pair, the first element is the method preferred in the most
  recent such vote (\<^verbatim>\<open>left_method_id\<close> if \<^verbatim>\<open>preferred\<close> is \<^verbatim>\<open>"left"\<close>, else
  \<^verbatim>\<open>right_method_id\<close>): the last of these votes in the order of their trial ids, which no
  other such vote exceeds in trial id and which is the last such vote of the history when
  the history is in trial order. The second element is a method of the method list that
  no such vote shows as left or right method, and it differs from the first. The earlier
  \<^verbatim>\<open>nextPair\<close> takes the last such vote of the history.
\<close>

theorem nextPair_champion_challenger:
  "(\<exists>r\<in>set history. participant_id r = pid \<and> component r = cmpt) \<Longrightarrow>
   (nextPair pid cmpt ms history = Some (a, b) \<longrightarrow>
      a = champion_of (last (sort_key trialKey (matching pid cmpt history))) \<and>
      (\<exists>r\<in>set history. participant_id r = pid \<and> component r = cmpt \<and>
         (\<forall>r'\<in>set history. participant_id r' = pid \<and> component r' = cmpt \<longrightarrow>
            trialKey r' \<le> trialKey r) \<and>
         a = (if preferred r = ''left'' then left_method_id r else right_method_id r)) \<and>
      (sorted (map trialKey (matching pid cmpt history)) \<longrightarrow>
         a = champion_of (last (matching pid cmpt history))) \<and>
      b \<in> set ms \<and>
      (\<forall>r\<in>set history. participant_id r = pid \<and> component r = cmpt \<longrightarrow>
         b \<noteq> left_method_id r \<and> b \<noteq> right_method_id r) \<and>
      b \<noteq> a) \<and>
   (nextPair_v0 pid cmpt ms history = Some (a, b) \<longrightarrow>
      a = champion_of (last (matching pid cmpt history)) \<and>
      b \<in> set ms \<and>
      (\<forall>r\<in>set history. participant_id r = pid \<and> component r = cmpt \<longrightarrow>
         b \<noteq> left_method_id r \<and> b \<noteq> right_method_id r) \<and>
      b \<noteq> a)"
proof -
  assume "\<exists>r\<in>set history. participant_id r = pid \<and> component r = cmpt"
  then have mne: "matching pid cmpt history \<noteq> []"
    by (auto simp: matching_def filter_empty_conv)
  let ?m = "matching pid cmpt history"
  let ?l = "last (sort_key trialKey ?m)"
  have mx: "?l \<in> set ?m \<and> (\<forall>x\<in>set ?m. trialKey x \<le> trialKey ?l)"
    using last_sort_key_max [OF mne] .
  have ex: "\<exists>r\<in>set history. participant_id r = pid \<and> component r = cmpt \<and>
         (\<forall>r'\<in>set history. participant_id r' = pid \<and> component r' = cmpt \<longrightarrow>
            trialKey r' \<le> trialKey r) \<and>
         champion_of ?l = (if preferred r = ''left'' then left_method_id r else right_method_id r)"
  proof (rule bexI [of _ ?l])
    show "?l \<in> set history"
      using mx by (simp add: matching_def)
    show "participant_id ?l = pid \<and> component ?l = cmpt \<and>
         (\<forall>r'\<in>set history. participant_id r' = pid \<and> component r' = cmpt \<longrightarrow>
            trialKey r' \<le> trialKey ?l) \<and>
         champion_of ?l = (if preferred ?l = ''left'' then left_method_id ?l else right_method_id ?l)"
      using mx by (simp add: matching_def champion_of_def)
  qed
  have srt: "sorted (map trialKey ?m) \<Longrightarrow> ?l = last ?m"
    by (simp add: sort_key_id_if_sorted)
  show ?thesis
    using nextPair_Some [OF mne, of ms a b] nextPair_v0_Some [OF mne, of ms a b] ex srt
    by auto
qed


theorem nextPair_champion_challenger_witness:
  "(\<exists>r\<in>set [\<lparr>participant_id = ''P1'', component = ''kg'', trial_id = Some 1,
        left_method_id = ''m1'', right_method_id = ''m2'', preferred = ''right''\<rparr>,
      \<lparr>participant_id = ''P2'', component = ''kg'', trial_id = Some 1,
        left_method_id = ''m4'', right_method_id = ''m5'', preferred = ''right''\<rparr>,
      \<lparr>participant_id = ''P1'', component = ''kg'', trial_id = Some 2,
        left_method_id = ''m2'', right_method_id = ''m3'', preferred = ''left''\<rparr>].
      participant_id r = ''P1'' \<and> component r = ''kg'') \<and>
   nextPair ''P1'' ''kg'' [''m1'', ''m2'', ''m3'', ''m4'', ''m5'']
     [\<lparr>participant_id = ''P1'', component = ''kg'', trial_id = Some 1,
        left_method_id = ''m1'', right_method_id = ''m2'', preferred = ''right''\<rparr>,
      \<lparr>participant_id = ''P2'', component = ''kg'', trial_id = Some 1,
        left_method_id = ''m4'', right_method_id = ''m5'', preferred = ''right''\<rparr>,
      \<lparr>participant_id = ''P1'', component = ''kg'', trial_id = Some 2,
        left_method_id = ''m2'', right_method_id = ''m3'', preferred = ''left''\<rparr>]
     = Some (''m2'', ''m4'') \<and>
   nextPair_v0 ''P1'' ''kg'' [''m1'', ''m2'', ''m3'', ''m4'', ''m5'']
     [\<lparr>participant_id = ''P1'', component = ''kg'', trial_id = Some 1,
        left_method_id = ''m1'', right_method_id = ''m2'', preferred = ''right''\<rparr>,
      \<lparr>participant_id = ''P2'', component = ''kg'', trial_id = Some 1,
        left_method_id = ''m4'', right_method_id = ''m5'', preferred = ''right''\<rparr>,
      \<lparr>participant_id = ''P1'', component = ''kg'', trial_id = Some 2,
        left_method_id = ''m2'', right_method_id = ''m3'', preferred = ''left''\<rparr>]
     = Some (''m2'', ''m4'') \<and>
   ''m4'' \<in> set [''m1'', ''m2'', ''m3'', ''m4'', ''m5''] \<and> ''m4'' \<noteq> ''m2''"
proof -
  let ?h = "[\<lparr>participant_id = ''P1'', component = ''kg'', trial_id = Some 1,
        left_method_id = ''m1'', right_method_id = ''m2'', preferred = ''right''\<rparr>,
      \<lparr>participant_id = ''P2'', component = ''kg'', trial_id = Some 1,
        left_method_id = ''m4'', right_method_id = ''m5'', preferred = ''right''\<rparr>,
      \<lparr>participant_id = ''P1'', component = ''kg'', trial_id = Some 2,
        left_method_id = ''m2'', right_method_id = ''m3'', preferred = ''left''\<rparr>]"
  let ?ms = "[''m1'', ''m2'', ''m3'', ''m4'', ''m5'']"
  have ex: "\<exists>r\<in>set ?h. participant_id r = ''P1'' \<and> component r = ''kg''"
    by simp
  have v: "nextPair ''P1'' ''kg'' ?ms ?h = Some (''m2'', ''m4'')"
    by code_simp
  have v0: "nextPair_v0 ''P1'' ''kg'' ?ms ?h = Some (''m2'', ''m4'')"
    by code_simp
  from nextPair_champion_challenger [OF ex, where ms = ?ms and a = "''m2''" and b = "''m4''"] v
  have "''m4'' \<in> set ?ms \<and> ''m4'' \<noteq> ''m2''"
    by blast
  with ex v v0 show ?thesis
    by blast
qed

lemma shuffle_loop_map:
  "k < length a \<or> k = 0 \<Longrightarrow> shuffle_loop k seed (map f a) = map f (shuffle_loop k seed a)"
proof (induction k seed a rule: shuffle_loop.induct)
  case (1 seed a)
  show ?case by simp
next
  case (2 k seed a)
  obtain u seed' where m: "mulberry32 seed = (u, seed')"
    by (cases "mulberry32 seed")
  define j where "j = randIndex u (Suc k + 1)"
  define b where "b = (a[Suc k := a ! j])[j := a ! Suc k]"
  have i: "Suc k < length a"
    using "2.prems" by simp
  have j: "j < length a"
    using randIndex_less [of "Suc k + 1" u] i by (simp add: j_def)
  have sw: "((map f a)[Suc k := map f a ! j])[j := map f a ! Suc k] = map f b"
    using i j by (simp add: b_def map_update)
  have "shuffle_loop k seed' (map f b) = map f (shuffle_loop k seed' b)"
    using "2.IH" [OF m [symmetric] refl refl] i by (simp add: b_def j_def)
  then show ?case
    using m sw by (simp add: b_def j_def Let_def)
qed

lemma stableShuffle_map: "stableShuffle (map f xs) seedStr = map f (stableShuffle xs seedStr)"
proof -
  have "length xs - 1 < length xs \<or> length xs - 1 = 0"
    by (cases xs) simp_all
  then show ?thesis
    by (simp add: stableShuffle_def shuffle_loop_map)
qed

text \<open>
  C6. The pairing selection is deterministic: two calls of \<^verbatim>\<open>nextPair\<close> with equal
  participant id, component, method-id list and vote history return equal results. The
  result depends on the history only through the votes of that participant for that
  component. The first pair is the first two elements of the stable shuffle of the method
  list under the seed string \<^verbatim>\<open>pid::component\<close>, and the reordering that the shuffle
  applies depends on nothing but that seed string and the length of the list.
\<close>

theorem nextPair_deterministic:
  "(pid = pid' \<and> cmpt = cmpt' \<and> ms = ms' \<and> history = history' \<longrightarrow>
      nextPair pid cmpt ms history = nextPair pid' cmpt' ms' history' \<and>
      nextPair_v0 pid cmpt ms history = nextPair_v0 pid' cmpt' ms' history') \<and>
   (matching pid cmpt history = matching pid cmpt other \<longrightarrow>
      nextPair pid cmpt ms history = nextPair pid cmpt ms other \<and>
      nextPair_v0 pid cmpt ms history = nextPair_v0 pid cmpt ms other) \<and>
   (pid \<noteq> [] \<and> 2 \<le> length ms \<and> matching pid cmpt history = [] \<longrightarrow>
      nextPair pid cmpt ms history =
        Some (stableShuffle ms (pid @ ''::'' @ cmpt) ! 0, stableShuffle ms (pid @ ''::'' @ cmpt) ! 1)) \<and>
   stableShuffle (map f xs) seedStr = map f (stableShuffle xs seedStr)"
proof (intro conjI impI)
  assume "pid = pid' \<and> cmpt = cmpt' \<and> ms = ms' \<and> history = history'"
  then show "nextPair pid cmpt ms history = nextPair pid' cmpt' ms' history'"
    and "nextPair_v0 pid cmpt ms history = nextPair_v0 pid' cmpt' ms' history'"
    by simp_all
next
  assume "matching pid cmpt history = matching pid cmpt other"
  then show "nextPair pid cmpt ms history = nextPair pid cmpt ms other"
    and "nextPair_v0 pid cmpt ms history = nextPair_v0 pid cmpt ms other"
    by (simp_all add: nextPair_def nextPair_v0_def)
next
  assume "pid \<noteq> [] \<and> 2 \<le> length ms \<and> matching pid cmpt history = []"
  then show "nextPair pid cmpt ms history =
        Some (stableShuffle ms (pid @ ''::'' @ cmpt) ! 0, stableShuffle ms (pid @ ''::'' @ cmpt) ! 1)"
    by (simp add: nextPair_def Let_def)
next
  show "stableShuffle (map f xs) seedStr = map f (stableShuffle xs seedStr)"
    by (rule stableShuffle_map)
qed

theorem nextPair_deterministic_witness:
  "nextPair ''P3'' ''kg'' [''m1'', ''m2'', ''m3'', ''m4'', ''m5'']
     [\<lparr>participant_id = ''P1'', component = ''kg'', trial_id = Some 1,
        left_method_id = ''m1'', right_method_id = ''m2'', preferred = ''right''\<rparr>]
     = Some (''m1'', ''m3'') \<and>
   nextPair ''P3'' ''kg'' [''m1'', ''m2'', ''m3'', ''m4'', ''m5''] ([] :: vote list)
     = Some (''m1'', ''m3'') \<and>
   stableShuffle [''m1'', ''m2'', ''m3'', ''m4'', ''m5''] ''P3::kg''
     = [''m1'', ''m3'', ''m2'', ''m4'', ''m5''] \<and>
   stableShuffle (map length [''m1'', ''m2'', ''m3'', ''m4'', ''m5'']) ''P3::kg''
     = map length (stableShuffle [''m1'', ''m2'', ''m3'', ''m4'', ''m5''] ''P3::kg'')"
proof -
  let ?h = "[\<lparr>participant_id = ''P1'', component = ''kg'', trial_id = Some 1,
        left_method_id = ''m1'', right_method_id = ''m2'', preferred = ''right''\<rparr>]"
  let ?ms = "[''m1'', ''m2'', ''m3'', ''m4'', ''m5'']"
  have m: "matching ''P3'' ''kg'' ?h = matching ''P3'' ''kg'' ([] :: vote list)"
    by (simp add: matching_def)
  have s: "stableShuffle ?ms ''P3::kg'' = [''m1'', ''m3'', ''m2'', ''m4'', ''m5'']"
    by code_simp
  note t = nextPair_deterministic [where pid = "''P3''" and pid' = "''P3''" and cmpt = "''kg''"
      and cmpt' = "''kg''" and ms = ?ms and ms' = ?ms and history = ?h and history' = ?h
      and other = "[] :: vote list" and f = length and xs = ?ms and seedStr = "''P3::kg''"]
  have e: "nextPair ''P3'' ''kg'' ?ms ?h = nextPair ''P3'' ''kg'' ?ms ([] :: vote list)"
    using t m by blast
  have c: "''P3'' \<noteq> [] \<and> 2 \<le> length ?ms \<and> matching ''P3'' ''kg'' ?h = []"
    by (simp add: matching_def)
  have "nextPair ''P3'' ''kg'' ?ms ?h =
      Some (stableShuffle ?ms (''P3'' @ ''::'' @ ''kg'') ! 0, stableShuffle ?ms (''P3'' @ ''::'' @ ''kg'') ! 1)"
    using t c by blast
  then have v: "nextPair ''P3'' ''kg'' ?ms ?h = Some (''m1'', ''m3'')"
    by (simp add: s)
  have n: "stableShuffle (map length ?ms) ''P3::kg'' = map length (stableShuffle ?ms ''P3::kg'')"
    using t by blast
  from v e n s show ?thesis
    by simp
qed

subsection \<open>The origin gate\<close>

lemma not_allowed_empty_list: "ALLOWED_ORIGINS env = [] \<Longrightarrow> \<not> originAllowed env origin"
  by (simp add: originAllowed_def trim_def)

lemma not_allowed_outside:
  "origin \<notin> set (map trim (split_on CHR '','' (ALLOWED_ORIGINS env))) \<Longrightarrow> \<not> originAllowed env origin"
  by (auto simp: originAllowed_def)

lemma fetch_rejects_origin:
  assumes "req_method req \<noteq> ''OPTIONS''"
    and "\<not> originAllowed env (case req_origin req of None \<Rightarrow> [] | Some s \<Rightarrow> s)"
  shows "fetch pf env now req d =
     (Inr \<lparr>status = 403, headers = cors (case req_origin req of None \<Rightarrow> [] | Some s \<Rightarrow> s),
           content = Some (JObj [(''error'', JStr ''Origin not allowed'')])\<rparr>, d)"
  using assms by (simp add: fetch_def error_response_def json_response_def)

text \<open>
  C8. A request whose method is not \<^verbatim>\<open>OPTIONS\<close> and whose \<^verbatim>\<open>Origin\<close> header is missing,
  empty, or not among the trimmed entries of the comma-separated \<^verbatim>\<open>ALLOWED_ORIGINS\<close> is
  answered 403 with \<^verbatim>\<open>{error: "Origin not allowed"}\<close>, and the store is as before: neither
  endpoint has run. With an empty \<^verbatim>\<open>ALLOWED_ORIGINS\<close> this holds for every such request.
\<close>

theorem origin_gate:
  "req_method req \<noteq> ''OPTIONS'' \<Longrightarrow>
   req_origin req = None \<or> req_origin req = Some [] \<or>
     (\<exists>orig. req_origin req = Some orig \<and>
        orig \<notin> set (map trim (split_on CHR '','' (ALLOWED_ORIGINS env)))) \<or>
     ALLOWED_ORIGINS env = [] \<Longrightarrow>
   fetch pf env now req d =
     (Inr \<lparr>status = 403, headers = cors (case req_origin req of None \<Rightarrow> [] | Some s \<Rightarrow> s),
           content = Some (JObj [(''error'', JStr ''Origin not allowed'')])\<rparr>, d)"
proof -
  assume m: "req_method req \<noteq> ''OPTIONS''"
  assume "req_origin req = None \<or> req_origin req = Some [] \<or>
     (\<exists>orig. req_origin req = Some orig \<and>
        orig \<notin> set (map trim (split_on CHR '','' (ALLOWED_ORIGINS env)))) \<or>
     ALLOWED_ORIGINS env = []"
  then have "\<not> originAllowed env (case req_origin req of None \<Rightarrow> [] | Some s \<Rightarrow> s)"
  proof (elim disjE exE conjE)
    assume "req_origin req = None"
    then show ?thesis by (simp add: originAllowed_def)
  next
    assume "req_origin req = Some []"
    then show ?thesis by (simp add: originAllowed_def)
  next
    fix orig
    assume "req_origin req = Some orig"
      and "orig \<notin> set (map trim (split_on CHR '','' (ALLOWED_ORIGINS env)))"
    then show ?thesis by (simp add: not_allowed_outside)
  next
    assume "ALLOWED_ORIGINS env = []"
    then show ?thesis by (rule not_allowed_empty_list)
  qed
  with m show ?thesis
    by (rule fetch_rejects_origin)
qed

theorem origin_gate_witness:
  "fetch example_platform example_env 1000
     \<lparr>req_method = ''POST'', req_origin = Some ''https://c.example'', req_path = ''/api/start'',
      req_body = Some (JObj [(''code'', JStr ''test'')])\<rparr> example_db =
     (Inr \<lparr>status = 403, headers = cors ''https://c.example'',
           content = Some (JObj [(''error'', JStr ''Origin not allowed'')])\<rparr>, example_db) \<and>
   fetch example_platform (example_env\<lparr>ALLOWED_ORIGINS := []\<rparr>) 1000
     \<lparr>req_method = ''POST'', req_origin = Some ''https://a.example'', req_path = ''/api/start'',
      req_body = Some (JObj [(''code'', JStr ''test'')])\<rparr> example_db =
     (Inr \<lparr>status = 403, headers = cors ''https://a.example'',
           content = Some (JObj [(''error'', JStr ''Origin not allowed'')])\<rparr>, example_db)"
proof -
  let ?r = "\<lambda>orig. \<lparr>req_method = ''POST'', req_origin = Some orig, req_path = ''/api/start'',
      req_body = Some (JObj [(''code'', JStr ''test'')])\<rparr>"
  have m: "req_method (?r orig) \<noteq> ''OPTIONS''" for orig
    by simp
  have o: "''https://c.example'' \<notin> set (map trim (split_on CHR '','' (ALLOWED_ORIGINS example_env)))"
    by code_simp
  have e: "ALLOWED_ORIGINS (example_env\<lparr>ALLOWED_ORIGINS := []\<rparr>) = []"
    by simp
  have 1: "fetch example_platform example_env 1000 (?r ''https://c.example'') example_db =
     (Inr \<lparr>status = 403, headers = cors ''https://c.example'',
           content = Some (JObj [(''error'', JStr ''Origin not allowed'')])\<rparr>, example_db)"
    using origin_gate [OF m, of "''https://c.example''" example_env example_platform 1000 example_db] o
    by simp
  have 2: "fetch example_platform (example_env\<lparr>ALLOWED_ORIGINS := []\<rparr>) 1000 (?r ''https://a.example'') example_db =
     (Inr \<lparr>status = 403, headers = cors ''https://a.example'',
           content = Some (JObj [(''error'', JStr ''Origin not allowed'')])\<rparr>, example_db)"
    using origin_gate [OF m, of "''https://a.example''" "example_env\<lparr>ALLOWED_ORIGINS := []\<rparr>" example_platform 1000 example_db] e
    by simp
  from 1 2 show ?thesis by simp
qed

subsection \<open>Remaining uses\<close>

lemma decrement_rows:
  "list_all2 (\<lambda>a b. code_hash b = code_hash a \<and>
       ((case uses_remaining a of None \<Rightarrow> True | Some u \<Rightarrow> 0 \<le> u) \<longrightarrow>
        (case uses_remaining b of None \<Rightarrow> True | Some u \<Rightarrow> 0 \<le> u)))
     (access_codes d) (access_codes (dbDecrementUsesRemaining d h))"
  by (simp add: dbDecrementUsesRemaining_def list_all2_map2 list_all2_same split: option.splits)

lemma same_rows:
  "list_all2 (\<lambda>a b. code_hash b = code_hash a \<and>
       ((case uses_remaining a of None \<Rightarrow> True | Some u \<Rightarrow> 0 \<le> u) \<longrightarrow>
        (case uses_remaining b of None \<Rightarrow> True | Some u \<Rightarrow> 0 \<le> u)))
     xs xs"
  by (simp add: list_all2_same)

lemma handle_start_access_codes:
  "access_codes (snd (handle_start pf env now origin req d)) = access_codes d \<or>
   (\<exists>h. access_codes (snd (handle_start pf env now origin req d)) =
      access_codes (dbDecrementUsesRemaining d h))"
  by (auto simp: handle_start_def Let_def split: sum.splits option.splits prod.splits)

lemma upsert_access_codes: "access_codes (dbUpsertVote d row) = access_codes d"
  by (simp add: dbUpsertVote_def Let_def)

lemma handle_vote_access_codes:
  "access_codes (snd (handle_vote pf env now origin req d)) = access_codes d"
  by (auto simp: handle_vote_def Let_def upsert_access_codes split: sum.splits option.splits)

lemma fetch_access_codes:
  "access_codes (snd (fetch pf env now req d)) = access_codes d \<or>
   (\<exists>h. access_codes (snd (fetch pf env now req d)) = access_codes (dbDecrementUsesRemaining d h))"
  using handle_start_access_codes [of pf env now _ req d]
  by (auto simp: fetch_def Let_def handle_vote_access_codes)

lemma fetch_rows:
  "list_all2 (\<lambda>a b. code_hash b = code_hash a \<and>
       ((case uses_remaining a of None \<Rightarrow> True | Some u \<Rightarrow> 0 \<le> u) \<longrightarrow>
        (case uses_remaining b of None \<Rightarrow> True | Some u \<Rightarrow> 0 \<le> u)))
     (access_codes d) (access_codes (snd (fetch pf env now req d)))"
  using fetch_access_codes [of pf env now req d] decrement_rows [of d] same_rows [of "access_codes d"]
  by auto

lemma serve_rows:
  "list_all2 (\<lambda>a b. code_hash b = code_hash a \<and>
       ((case uses_remaining a of None \<Rightarrow> True | Some u \<Rightarrow> 0 \<le> u) \<longrightarrow>
        (case uses_remaining b of None \<Rightarrow> True | Some u \<Rightarrow> 0 \<le> u)))
     (access_codes d) (access_codes (serve pf env reqs d))"
proof (induction reqs arbitrary: d)
  case Nil
  show ?case by (simp add: list_all2_same)
next
  case (Cons a reqs)
  obtain now req where a: "a = (now, req)"
    by (cases a)
  let ?P = "\<lambda>a b. code_hash b = code_hash a \<and>
       ((case uses_remaining a of None \<Rightarrow> True | Some u \<Rightarrow> (0::int) \<le> u) \<longrightarrow>
        (case uses_remaining b of None \<Rightarrow> True | Some u \<Rightarrow> 0 \<le> u))"
  have 1: "list_all2 ?P (access_codes d) (access_codes (snd (fetch pf env now req d)))"
    by (rule fetch_rows)
  have 2: "list_all2 ?P (access_codes (snd (fetch pf env now req d)))
      (access_codes (serve pf env reqs (snd (fetch pf env now req d))))"
    by (rule Cons.IH)
  have "list_all2 ?P (access_codes d) (access_codes (serve pf env reqs (snd (fetch pf env now req d))))"
    using 1 2 by (rule list_all2_trans [rotated]) auto
  then show ?case
    by (simp add: a)
qed

text \<open>
  C9. \<^verbatim>\<open>uses_remaining\<close> never becomes negative: a row of \<^verbatim>\<open>access_codes\<close> whose
  \<^verbatim>\<open>uses_remaining\<close> is null or non-negative is, after any sequence of requests to the
  worker, still at its place with its \<^verbatim>\<open>code_hash\<close> and a \<^verbatim>\<open>uses_remaining\<close> that is null
  or non-negative; and \<^verbatim>\<open>dbDecrementUsesRemaining\<close> changes a row only by taking one from
  a \<^verbatim>\<open>uses_remaining\<close> that is not null and greater than zero.
\<close>

theorem uses_remaining_never_negative:
  "i < length (access_codes d) \<Longrightarrow>
   uses_remaining (access_codes d ! i) = None \<or>
     (\<exists>u. uses_remaining (access_codes d ! i) = Some u \<and> 0 \<le> u) \<Longrightarrow>
   length (access_codes (serve pf env reqs d)) = length (access_codes d) \<and>
   code_hash (access_codes (serve pf env reqs d) ! i) = code_hash (access_codes d ! i) \<and>
   (uses_remaining (access_codes (serve pf env reqs d) ! i) = None \<or>
     (\<exists>u. uses_remaining (access_codes (serve pf env reqs d) ! i) = Some u \<and> 0 \<le> u)) \<and>
   (access_codes (dbDecrementUsesRemaining d h) ! i = access_codes d ! i \<or>
     (\<exists>u. uses_remaining (access_codes d ! i) = Some u \<and> 0 < u \<and>
        access_codes (dbDecrementUsesRemaining d h) ! i =
          (access_codes d ! i)\<lparr>uses_remaining := Some (u - 1)\<rparr>))"
proof -
  assume i: "i < length (access_codes d)"
  assume ok: "uses_remaining (access_codes d ! i) = None \<or>
     (\<exists>u. uses_remaining (access_codes d ! i) = Some u \<and> 0 \<le> u)"
  note r = serve_rows [of d pf env reqs]
  have len: "length (access_codes (serve pf env reqs d)) = length (access_codes d)"
    using r by (simp add: list_all2_lengthD)
  have row: "code_hash (access_codes (serve pf env reqs d) ! i) = code_hash (access_codes d ! i) \<and>
       ((case uses_remaining (access_codes d ! i) of None \<Rightarrow> True | Some u \<Rightarrow> 0 \<le> u) \<longrightarrow>
        (case uses_remaining (access_codes (serve pf env reqs d) ! i) of None \<Rightarrow> True | Some u \<Rightarrow> 0 \<le> u))"
    using list_all2_nthD [OF r i] .
  have dec: "access_codes (dbDecrementUsesRemaining d h) ! i = access_codes d ! i \<or>
     (\<exists>u. uses_remaining (access_codes d ! i) = Some u \<and> 0 < u \<and>
        access_codes (dbDecrementUsesRemaining d h) ! i =
          (access_codes d ! i)\<lparr>uses_remaining := Some (u - 1)\<rparr>)"
    using i by (simp add: dbDecrementUsesRemaining_def split: option.splits)
  from ok row have "uses_remaining (access_codes (serve pf env reqs d) ! i) = None \<or>
     (\<exists>u. uses_remaining (access_codes (serve pf env reqs d) ! i) = Some u \<and> 0 \<le> u)"
    by (auto split: option.splits)
  with len row dec show ?thesis
    by blast
qed

theorem uses_remaining_never_negative_witness:
  "(0::nat) < length (access_codes example_db) \<and>
   uses_remaining (access_codes example_db ! 0) = Some 1 \<and>
   serve example_platform example_env
     [(1000, \<lparr>req_method = ''POST'', req_origin = Some ''https://b.example'',
               req_path = ''/api/start'', req_body = Some (JObj [(''code'', JStr '' test '')])\<rparr>),
      (1001, \<lparr>req_method = ''POST'', req_origin = Some ''https://b.example'',
               req_path = ''/api/start'', req_body = Some (JObj [(''code'', JStr '' test '')])\<rparr>)]
     example_db =
     \<lparr>access_codes = [\<lparr>code_hash = ''04c0'', active = 1, uses_remaining = Some 0, expires_at = None\<rparr>],
      votes = []\<rparr> \<and>
   length (access_codes (serve example_platform example_env
     [(1000, \<lparr>req_method = ''POST'', req_origin = Some ''https://b.example'',
               req_path = ''/api/start'', req_body = Some (JObj [(''code'', JStr '' test '')])\<rparr>),
      (1001, \<lparr>req_method = ''POST'', req_origin = Some ''https://b.example'',
               req_path = ''/api/start'', req_body = Some (JObj [(''code'', JStr '' test '')])\<rparr>)]
     example_db)) = 1"
proof -
  let ?reqs = "[(1000, \<lparr>req_method = ''POST'', req_origin = Some ''https://b.example'',
               req_path = ''/api/start'', req_body = Some (JObj [(''code'', JStr '' test '')])\<rparr>),
      (1001, \<lparr>req_method = ''POST'', req_origin = Some ''https://b.example'',
               req_path = ''/api/start'', req_body = Some (JObj [(''code'', JStr '' test '')])\<rparr>)]"
  have i: "(0::nat) < length (access_codes example_db)"
    by (simp add: example_db_def)
  have u: "uses_remaining (access_codes example_db ! 0) = Some 1"
    by (simp add: example_db_def)
  have s: "serve example_platform example_env ?reqs example_db =
     \<lparr>access_codes = [\<lparr>code_hash = ''04c0'', active = 1, uses_remaining = Some 0, expires_at = None\<rparr>],
      votes = []\<rparr>"
    by code_simp
  have u': "uses_remaining (access_codes example_db ! 0) = None \<or>
     (\<exists>u. uses_remaining (access_codes example_db ! 0) = Some u \<and> 0 \<le> u)"
    by (simp add: u)
  have "length (access_codes (serve example_platform example_env ?reqs example_db)) =
      length (access_codes example_db)"
    using uses_remaining_never_negative [OF i u', of example_platform example_env ?reqs]
    by (rule conjunct1)
  then have "length (access_codes (serve example_platform example_env ?reqs example_db)) = 1"
    by (simp add: example_db_def)
  with i u s show ?thesis
    by blast
qed

subsection \<open>Votes\<close>


















subsection \<open>Responses\<close>

lemma expiry_error_status:
  "expiry_error pf now doc = Some (st, msg) \<Longrightarrow> st = 500 \<or> st = 403"
  by (auto simp: expiry_error_def split: option.splits if_splits)

lemma handle_start_shape:
  assumes "handle_start pf env now origin req d = (Inr resp, d')"
  shows "(status resp = 200 \<and> (\<exists>tok. content resp = Some (JObj [(''ok'', JBool True), (''token'', JStr tok)]))) \<or>
     (status resp \<in> {400, 403, 500} \<and> (\<exists>msg. content resp = Some (JObj [(''error'', JStr msg)])) \<and> d' = d)"
  using assms
  by (auto simp: handle_start_def Let_def error_response_def json_response_def
      dest: expiry_error_status split: sum.splits option.splits if_splits prod.splits)

lemma handle_vote_shape:
  assumes "handle_vote pf env now origin req d = (Inr resp, d')"
  shows "(status resp = 200 \<and> content resp = Some (JObj [(''ok'', JBool True)])) \<or>
     (status resp \<in> {400, 403} \<and> (\<exists>msg. content resp = Some (JObj [(''error'', JStr msg)])) \<and> d' = d)"
  using assms
  by (auto simp: handle_vote_def Let_def error_response_def json_response_def
      split: sum.splits option.splits if_splits)

text \<open>
  C7. Every response that the handler returns with a status other than 200 and 204 has
  one of the statuses 400, 403, 404, 405 and 500, and its body is the JSON text of an
  object whose only property is \<^verbatim>\<open>error\<close>, a string.
\<close>

theorem error_responses_shape:
  "fetch pf env now req d = (Inr resp, d') \<Longrightarrow> status resp \<noteq> 200 \<Longrightarrow> status resp \<noteq> 204 \<Longrightarrow>
   status resp \<in> {400, 403, 404, 405, 500} \<and>
   (\<exists>msg. content resp = Some (JObj [(''error'', JStr msg)]))"
proof -
  assume f: "fetch pf env now req d = (Inr resp, d')"
    and s: "status resp \<noteq> 200" "status resp \<noteq> 204"
  let ?o = "case req_origin req of None \<Rightarrow> [] | Some s \<Rightarrow> s"
  consider (opt) "req_method req = ''OPTIONS''"
    | (err) st msg where "resp = error_response st msg ?o" "st \<in> {403, 405, 404}"
    | (start) "handle_start pf env now ?o req d = (Inr resp, d')"
    | (vote) "handle_vote pf env now ?o req d = (Inr resp, d')"
    using f by (auto simp: fetch_def Let_def split: if_splits)
  then show ?thesis
  proof cases
    case opt
    then have "status resp = 204"
      using f by (auto simp: fetch_def Let_def)
    with s show ?thesis by simp
  next
    case err
    then show ?thesis
      by (auto simp: error_response_def json_response_def)
  next
    case start
    from handle_start_shape [OF this] s show ?thesis
      by auto
  next
    case vote
    from handle_vote_shape [OF this] s show ?thesis
      by auto
  qed
qed


theorem error_responses_shape_witness:
  "fetch example_platform example_env 1000
     \<lparr>req_method = ''GET'', req_origin = Some ''https://a.example'', req_path = ''/api/start'',
      req_body = None\<rparr> example_db =
     (Inr \<lparr>status = 405, headers = cors ''https://a.example'',
           content = Some (JObj [(''error'', JStr ''Method not allowed'')])\<rparr>, example_db) \<and>
   (405::nat) \<in> {400, 403, 404, 405, 500}"
proof -
  let ?resp = "\<lparr>status = 405, headers = cors ''https://a.example'',
           content = Some (JObj [(''error'', JStr ''Method not allowed'')])\<rparr>"
  have f: "fetch example_platform example_env 1000
     \<lparr>req_method = ''GET'', req_origin = Some ''https://a.example'', req_path = ''/api/start'',
      req_body = None\<rparr> example_db = (Inr ?resp, example_db)"
    by code_simp
  have "status ?resp \<in> {400, 403, 404, 405, 500}"
    using error_responses_shape [OF f] by simp
  with f show ?thesis
    by simp
qed

subsection \<open>The start endpoint\<close>

lemma expiry_error_None:
  "expiry_error pf now doc = None \<longleftrightarrow>
     (expires_at doc = None \<or> expires_at doc = Some [] \<or>
      (\<exists>s t. expires_at doc = Some s \<and> dateParse pf s = Some t \<and> now \<le> t))"
  by (auto simp: expiry_error_def split: option.splits)

text \<open>
  For a body other than \<^verbatim>\<open>null\<close> and a secret that is not empty, \<^verbatim>\<open>POST /api/start\<close> from an
  allowed origin is answered
  200 with a token exactly when the trimmed code is not empty, the first row with the hash
  of the code exists and has \<^verbatim>\<open>active = 1\<close>, its \<^verbatim>\<open>uses_remaining\<close> is null or positive,
  and its \<^verbatim>\<open>expires_at\<close> is null, empty, or parses to a time not earlier than now; every
  other answer is a 400, 403 or 500 error and leaves the store unchanged.
\<close>

lemma start_contract:
  fixes pf :: platform and req :: request
  assumes post: "req_method req = ''POST''"
    and orig: "req_origin req = Some origin" "originAllowed env origin"
    and path: "ends_with (req_path req) ''/api/start''"
    and body: "req_body req \<noteq> Some JNull"
    and secret: "TOKEN_SECRET env \<noteq> []"
  defines "code \<equiv> trim (jsString pf (Some (or_empty
      (js_prop (case req_body req of None \<Rightarrow> JObj [] | Some b \<Rightarrow> b) ''code''))))"
  shows "\<exists>resp d'. fetch pf env now req d = (Inr resp, d') \<and>
     ((status resp = 200) =
        (code \<noteq> [] \<and>
         (\<exists>doc. dbGetAccessCode d (sha256Hex pf code) = Some doc \<and> active doc = 1 \<and>
            (uses_remaining doc = None \<or> (\<exists>u. uses_remaining doc = Some u \<and> 0 < u)) \<and>
            (expires_at doc = None \<or> expires_at doc = Some [] \<or>
             (\<exists>s t. expires_at doc = Some s \<and> dateParse pf s = Some t \<and> now \<le> t))))) \<and>
     (status resp = 200 \<longrightarrow>
        (\<exists>token. makeToken pf env
             (JObj [(''codeHash'', JStr (sha256Hex pf code)), (''exp'', JNum (now + 43200000))]) = Inr token \<and>
           content resp = Some (JObj [(''ok'', JBool True), (''token'', JStr token)]))) \<and>
     (status resp \<noteq> 200 \<longrightarrow>
        status resp \<in> {400, 403, 500} \<and>
        (\<exists>msg. content resp = Some (JObj [(''error'', JStr msg)])) \<and> d' = d)"
proof -
  let ?body = "case req_body req of None \<Rightarrow> JObj [] | Some b \<Rightarrow> b"
  have nn: "?body \<noteq> JNull"
    using body by (auto split: option.splits)
  have f: "fetch pf env now req d = handle_start pf env now origin req d"
    using post orig path by (simp add: fetch_def)
  have g: "jsGet ?body ''code'' = Inr (js_prop ?body ''code'')"
    using nn by (simp add: jsGet_def)
  have mk: "makeToken pf env p = Inr (b64Json pf p @ ''.'' @ base64UrlEncode (hmacSha256 pf (TOKEN_SECRET env) (b64Json pf p)))"
    for p
    using secret by (simp add: makeToken_def hmacSign_def Let_def)
  show ?thesis
  proof (cases "code = []")
    case True
    then show ?thesis
      using g by (simp add: f handle_start_def code_def error_response_def json_response_def)
  next
    case ne: False
    show ?thesis
    proof (cases "dbGetAccessCode d (sha256Hex pf code)")
      case None
      then show ?thesis
        using g ne by (simp add: f handle_start_def code_def [symmetric] Let_def error_response_def json_response_def)
    next
      case (Some doc)
      show ?thesis
      proof (cases "expiry_error pf now doc")
        case None
        then have ex: "expires_at doc = None \<or> expires_at doc = Some [] \<or>
             (\<exists>s t. expires_at doc = Some s \<and> dateParse pf s = Some t \<and> now \<le> t)"
          by (simp add: expiry_error_None)
        show ?thesis
          using g ne Some None ex
          by (cases "uses_remaining doc")
            (auto simp: f handle_start_def code_def [symmetric] Let_def error_response_def json_response_def mk)
      next
        case (Some e)
        obtain st msg where e: "e = (st, msg)"
          by (cases e)
        have st: "st = 500 \<or> st = 403"
          using Some e expiry_error_status by blast
        have nex: "\<not> (expires_at doc = None \<or> expires_at doc = Some [] \<or>
             (\<exists>s t. expires_at doc = Some s \<and> dateParse pf s = Some t \<and> now \<le> t))"
          using Some expiry_error_None [of pf now doc] by simp
        show ?thesis
          using g ne \<open>dbGetAccessCode d (sha256Hex pf code) = Some doc\<close> Some e st nex
          by (cases "uses_remaining doc")
            (auto simp: f handle_start_def code_def [symmetric] Let_def error_response_def json_response_def)
      qed
    qed
  qed
qed

lemma start_null_body_throws:
  assumes "req_method req = ''POST''"
    and "req_origin req = Some origin" "originAllowed env origin"
    and "ends_with (req_path req) ''/api/start''"
    and "req_body req = Some JNull"
  shows "fetch pf env now req d = (Inl (Native TypeError), d)"
  using assms by (simp add: fetch_def handle_start_def jsGet_def)

text \<open>
  C1, the failing input. \<^verbatim>\<open>POST /api/start\<close> from an allowed origin with the JSON text
  \<^verbatim>\<open>null\<close> as its body: \<^verbatim>\<open>req.json()\<close> resolves to \<^verbatim>\<open>null\<close>, reading \<^verbatim>\<open>body.code\<close> throws a
  \<^verbatim>\<open>TypeError\<close>, and the exception leaves the handler, which returns no response. A body
  that is no JSON text at all is answered 400 \<^verbatim>\<open>Missing code\<close>.
\<close>

theorem start_null_body:
  "fetch example_platform example_env 1000
     \<lparr>req_method = ''POST'', req_origin = Some ''https://a.example'', req_path = ''/api/start'',
      req_body = Some JNull\<rparr> example_db = (Inl (Native TypeError), example_db) \<and>
   fetch example_platform example_env 1000
     \<lparr>req_method = ''POST'', req_origin = Some ''https://a.example'', req_path = ''/api/start'',
      req_body = None\<rparr> example_db =
     (Inr \<lparr>status = 400, headers = cors ''https://a.example'',
           content = Some (JObj [(''error'', JStr ''Missing code'')])\<rparr>, example_db)"
  by code_simp

text \<open>
  With an empty \<^verbatim>\<open>TOKEN_SECRET\<close> a request that passes every check of \<^verbatim>\<open>/api/start\<close> ends in
  the \<^verbatim>\<open>DataError\<close> of \<^verbatim>\<open>makeToken\<close>, after the use has been taken from the code.
\<close>

lemma start_empty_secret:
  "fetch example_platform (example_env\<lparr>TOKEN_SECRET := []\<rparr>) 1000
     \<lparr>req_method = ''POST'', req_origin = Some ''https://b.example'', req_path = ''/api/start'',
      req_body = Some (JObj [(''code'', JStr '' test '')])\<rparr> example_db =
     (Inl (Native DataError),
      \<lparr>access_codes = [\<lparr>code_hash = ''04c0'', active = 1, uses_remaining = Some 0, expires_at = None\<rparr>],
       votes = []\<rparr>)"
  by code_simp

subsection \<open>Base64\<close>





lemma sextet_first: "(x::nat) < 256 \<Longrightarrow> x div 4 < 64"
  by (simp add: less_mult_imp_div_less)

lemma sextet_second_one: "(x::nat) mod 4 * 16 < 64"
proof -
  have "x mod 4 < 4" by simp
  then have "x mod 4 \<le> 3" by linarith
  then show ?thesis by linarith
qed

lemma sextet_second: "(y::nat) < 256 \<Longrightarrow> x mod 4 * 16 + y div 16 < 64"
proof -
  assume "y < 256"
  then have "y div 16 < 16"
    by (simp add: less_mult_imp_div_less)
  moreover have "x mod 4 \<le> 3"
    using mod_less_divisor [of 4 x] by linarith
  ultimately show ?thesis by linarith
qed

lemma sextet_third_two: "(y::nat) mod 16 * 4 < 64"
proof -
  have "y mod 16 \<le> 15"
    using mod_less_divisor [of 16 y] by linarith
  then show ?thesis by linarith
qed

lemma sextet_third: "(z::nat) < 256 \<Longrightarrow> y mod 16 * 4 + z div 64 < 64"
proof -
  assume "z < 256"
  then have "z div 64 < 4"
    by (simp add: less_mult_imp_div_less)
  moreover have "y mod 16 \<le> 15"
    using mod_less_divisor [of 16 y] by linarith
  ultimately show ?thesis by linarith
qed


lemma byte_bound: "unat (a :: byte) < 256"
  using unsigned_less [of a, where 'a = nat] by simp

lemma sextets_bound: "n \<in> set (b64_sextets bs) \<Longrightarrow> n < 64"
proof (induction bs arbitrary: n rule: b64_sextets.induct)
  case 1
  then show ?case by simp
next
  case (2 a)
  then have "n = unat a div 4 \<or> n = unat a mod 4 * 16"
    by (simp add: Let_def)
  then show ?case
    using sextet_first [OF byte_bound [of a]] sextet_second_one [of "unat a"] by blast
next
  case (3 a b)
  then have "n = unat a div 4 \<or> n = unat a mod 4 * 16 + unat b div 16 \<or> n = unat b mod 16 * 4"
    by (simp add: Let_def)
  then show ?case
    using sextet_first [OF byte_bound [of a]] sextet_second [OF byte_bound [of b], of "unat a"] sextet_third_two [of "unat b"] by blast
next
  case (4 a b c rest)
  from "4.prems" have "n = unat a div 4 \<or> n = unat a mod 4 * 16 + unat b div 16 \<or>
      n = unat b mod 16 * 4 + unat c div 64 \<or> n = unat c mod 64 \<or> n \<in> set (b64_sextets rest)"
    by (simp add: Let_def)
  moreover have "unat c mod 64 < 64"
    by simp
  ultimately show ?case
    using sextet_first [OF byte_bound [of a]] sextet_second [OF byte_bound [of b], of "unat a"]
      sextet_third [OF byte_bound [of c], of "unat b"] "4.IH" [OF refl refl refl] by blast
qed



lemma mod4_step: "Suc (Suc (Suc (Suc n))) mod 4 = n mod 4"
  by presburger


lemma sextets_Nil: "b64_sextets bs = [] \<longleftrightarrow> bs = []"
  by (induction bs rule: b64_sextets.induct) (simp_all add: Let_def)

lemma btoa_form:
  "btoa bs = map b64_char (b64_sextets bs)
     @ replicate ((4 - length (b64_sextets bs) mod 4) mod 4) CHR ''=''"
  by (induction bs rule: btoa.induct) (simp_all add: Let_def mod4_step numeral_2_eq_2)

lemma strip_trailing_eq_pad:
  assumes "\<forall>c\<in>set xs. c \<noteq> CHR ''=''"
  shows "strip_trailing_eq (xs @ replicate k CHR ''='') = xs"
proof -
  have 1: "dropWhile (\<lambda>c. c = CHR ''='') (replicate k CHR ''='' @ ys) = dropWhile (\<lambda>c. c = CHR ''='') ys"
    for ys
    by (induction k) simp_all
  have 2: "dropWhile (\<lambda>c. c = CHR ''='') (rev xs) = rev xs"
    using assms by (cases "rev xs") (auto simp: rev_eq_Cons_iff)
  show ?thesis
    by (simp add: strip_trailing_eq_def 1 2)
qed

lemma replace_char_simps:
  "replace_char x y [] = []"
  "replace_char x y (c # cs) = (if c = x then y else c) # replace_char x y cs"
  by (simp_all add: replace_char_def)

lemma url_char_facts:
  "list_all (\<lambda>n.
      (if (if b64_char n = CHR ''+'' then CHR ''-'' else b64_char n) = CHR ''/'' then CHR ''_''
       else (if b64_char n = CHR ''+'' then CHR ''-'' else b64_char n)) \<noteq> CHR ''='' \<and>
      (if (if b64_char n = CHR ''+'' then CHR ''-'' else b64_char n) = CHR ''/'' then CHR ''_''
       else (if b64_char n = CHR ''+'' then CHR ''-'' else b64_char n)) \<noteq> CHR ''.'' \<and>
      replace_char CHR ''_'' CHR ''/'' (replace_char CHR ''-'' CHR ''+''
        (replace_char CHR ''/'' CHR ''_'' (replace_char CHR ''+'' CHR ''-'' [b64_char n]))) = [b64_char n])
     [0 ..< 64]"
  by code_simp

lemma url_chars:
  assumes "\<forall>n\<in>set sx. n < 64"
  shows "CHR ''='' \<notin> set (replace_char CHR ''/'' CHR ''_'' (replace_char CHR ''+'' CHR ''-'' (map b64_char sx))) \<and>
     CHR ''.'' \<notin> set (replace_char CHR ''/'' CHR ''_'' (replace_char CHR ''+'' CHR ''-'' (map b64_char sx))) \<and>
     replace_char CHR ''_'' CHR ''/'' (replace_char CHR ''-'' CHR ''+''
        (replace_char CHR ''/'' CHR ''_'' (replace_char CHR ''+'' CHR ''-'' (map b64_char sx)))) =
       map b64_char sx"
  using assms
proof (induction sx)
  case Nil
  show ?case by (simp add: replace_char_simps)
next
  case (Cons n sx)
  then have n: "n < 64" and sx: "\<forall>n\<in>set sx. n < 64"
    by simp_all
  from url_char_facts n have
    "(if (if b64_char n = CHR ''+'' then CHR ''-'' else b64_char n) = CHR ''/'' then CHR ''_''
       else (if b64_char n = CHR ''+'' then CHR ''-'' else b64_char n)) \<noteq> CHR ''='' \<and>
      (if (if b64_char n = CHR ''+'' then CHR ''-'' else b64_char n) = CHR ''/'' then CHR ''_''
       else (if b64_char n = CHR ''+'' then CHR ''-'' else b64_char n)) \<noteq> CHR ''.'' \<and>
      replace_char CHR ''_'' CHR ''/'' (replace_char CHR ''-'' CHR ''+''
        (replace_char CHR ''/'' CHR ''_'' (replace_char CHR ''+'' CHR ''-'' [b64_char n]))) = [b64_char n]"
    by (simp add: list_all_iff)
  with Cons.IH [OF sx] show ?case
    by (auto simp: replace_char_simps split: if_splits)
qed

lemma replace_pad:
  "replace_char CHR ''/'' CHR ''_'' (replace_char CHR ''+'' CHR ''-'' (xs @ replicate k CHR ''='')) =
   replace_char CHR ''/'' CHR ''_'' (replace_char CHR ''+'' CHR ''-'' xs) @ replicate k CHR ''=''"
  by (simp add: replace_char_def)

lemma url_encode_form:
  "base64UrlEncode bs =
     replace_char CHR ''/'' CHR ''_'' (replace_char CHR ''+'' CHR ''-'' (map b64_char (b64_sextets bs)))"
proof -
  have "\<forall>n\<in>set (b64_sextets bs). n < 64"
    by (simp add: sextets_bound)
  from url_chars [OF this]
  have "\<forall>c\<in>set (replace_char CHR ''/'' CHR ''_'' (replace_char CHR ''+'' CHR ''-''
      (map b64_char (b64_sextets bs)))). c \<noteq> CHR ''=''"
    by blast
  then show ?thesis
    by (simp only: base64UrlEncode_def btoa_form replace_pad strip_trailing_eq_pad)
qed

lemma url_encode_no_dot: "CHR ''.'' \<notin> set (base64UrlEncode bs)"
  using url_chars [of "b64_sextets bs"] by (simp add: url_encode_form sextets_bound)

lemma url_encode_length: "length (base64UrlEncode bs) = length (b64_sextets bs)"
  by (simp add: url_encode_form replace_char_def)

lemma url_encode_Nil: "base64UrlEncode bs = [] \<longleftrightarrow> bs = []"
  using url_encode_length [of bs] sextets_Nil [of bs] by (metis length_0_conv)










lemma split_on_no_sep: "sep \<notin> set xs \<Longrightarrow> split_on sep xs = [xs]"
  by (induction xs) auto

lemma split_on_first:
  "sep \<notin> set xs \<Longrightarrow> split_on sep (xs @ sep # ys) = xs # split_on sep ys"
  by (induction xs) auto

subsection \<open>Tokens\<close>

lemma hmacSign_Inr:
  "hmacSign pf secret data = Inr sig \<longleftrightarrow>
     secret \<noteq> [] \<and> sig = base64UrlEncode (hmacSha256 pf secret data)"
  by (auto simp: hmacSign_def)

lemma verify_signed:
  assumes body: "body \<noteq> []" "CHR ''.'' \<notin> set body"
    and sig: "hmacSign pf (TOKEN_SECRET env) body = Inr sig"
    and mac: "hmacSha256 pf (TOKEN_SECRET env) body \<noteq> []"
  shows "verifyToken pf env now (body @ ''.'' @ sig) =
     (case fromB64Json pf body of
        Inl e \<Rightarrow> Inl e
      | Inr payload \<Rightarrow>
          (case jsGet payload ''exp'' of
             Inl e \<Rightarrow> Inl e
           | Inr ex \<Rightarrow>
               if truthy ex \<and> js_gt pf now ex then Inl (Error ''Token expired'') else Inr payload))"
proof -
  have s: "sig = base64UrlEncode (hmacSha256 pf (TOKEN_SECRET env) body)"
    using sig by (simp add: hmacSign_Inr)
  have ne: "sig \<noteq> []"
    using mac by (simp add: s url_encode_Nil)
  have "CHR ''.'' \<notin> set sig"
    by (simp add: s url_encode_no_dot)
  then have "split_on CHR ''.'' sig = [sig]"
    by (rule split_on_no_sep)
  with split_on_first [OF body(2), of sig]
  have "split_on CHR ''.'' (body @ ''.'' @ sig) = [body, sig]"
    by simp
  then show ?thesis
    using body(1) ne sig by (simp add: verifyToken_def)
qed

lemma ends_with_last: "ends_with s suffix \<Longrightarrow> suffix \<noteq> [] \<Longrightarrow> last s = last suffix"
proof -
  assume e: "ends_with s suffix" and n: "suffix \<noteq> []"
  have "s = take (length s - length suffix) s @ suffix"
    using e by (metis append_take_drop_id ends_with_def)
  then have "last s = last (take (length s - length suffix) s @ suffix)"
    by simp
  also have "\<dots> = last suffix"
    using n by simp
  finally show ?thesis .
qed

lemma vote_path_not_start: "ends_with p ''/api/vote'' \<Longrightarrow> \<not> ends_with p ''/api/start''"
  using ends_with_last [of p "''/api/vote''"] ends_with_last [of p "''/api/start''"] by auto

lemma vote_with_token:
  assumes post: "req_method req = ''POST''"
    and orig: "originAllowed env (case req_origin req of None \<Rightarrow> [] | Some s \<Rightarrow> s)"
    and path: "ends_with (req_path req) ''/api/vote''"
    and body: "req_body req = Some b" "js_prop b ''token'' = Some (JStr token)" "token \<noteq> []"
      "truthy (js_prop b ''vote'')"
    and bad: "verifyToken pf env now token = Inl (Error msg)" "msg \<noteq> []"
  shows "fetch pf env now req d =
     (Inr \<lparr>status = 403, headers = cors (case req_origin req of None \<Rightarrow> [] | Some s \<Rightarrow> s),
           content = Some (JObj [(''error'', JStr msg)])\<rparr>, d)"
proof -
  let ?o = "case req_origin req of None \<Rightarrow> [] | Some s \<Rightarrow> s"
  have nn: "b \<noteq> JNull"
    using body(2) by (auto simp: js_prop_def)
  have f: "fetch pf env now req d = handle_vote pf env now ?o req d"
    using post orig path vote_path_not_start [OF path] by (simp add: fetch_def)
  have t: "jsString pf (Some (or_empty (Some (JStr token)))) = token"
    using body(3) by (simp add: or_empty_def jsString_def)
  show ?thesis
    using body nn bad t
    by (simp add: f handle_vote_def jsGet_def Let_def message_def error_response_def json_response_def)
qed

lemma vote_rejected:
  assumes post: "req_method req = ''POST''"
    and path: "ends_with (req_path req) ''/api/vote''"
    and body: "req_body req = Some b" "js_prop b ''token'' = Some (JStr token)" "token \<noteq> []"
      "truthy (js_prop b ''vote'')"
    and bad: "verifyToken pf env now token = Inl (Error msg)" "msg \<noteq> []"
  shows "\<exists>resp. fetch pf env now req d = (Inr resp, d) \<and> status resp = 403 \<and>
     (\<exists>m. content resp = Some (JObj [(''error'', JStr m)])) \<and>
     (originAllowed env (case req_origin req of None \<Rightarrow> [] | Some s \<Rightarrow> s) \<longrightarrow>
        content resp = Some (JObj [(''error'', JStr msg)]))"
proof (cases "originAllowed env (case req_origin req of None \<Rightarrow> [] | Some s \<Rightarrow> s)")
  case True
  from vote_with_token [OF post True path body bad] True show ?thesis
    by simp
next
  case False
  have "req_method req \<noteq> ''OPTIONS''"
    using post by simp
  from fetch_rejects_origin [OF this False] False show ?thesis
    by simp
qed





text \<open>
  C3, as stated, fails for \<^verbatim>\<open>exp = 0\<close>: the token of the payload \<^verbatim>\<open>{exp: 0}\<close> is well formed
  and signed, \<open>0\<close> is less than the current time \<open>1000\<close>, and \<^verbatim>\<open>verifyToken\<close> returns the
  payload; \<^verbatim>\<open>POST /api/vote\<close> with this token answers 200 and stores the vote. The same
  holds for the other values that \<^verbatim>\<open>payload.exp && ...\<close> takes for false and that compare
  as less than the current time: \<^verbatim>\<open>false\<close>, \<^verbatim>\<open>null\<close> and the empty string. And a request
  with an expired token and no vote is answered 400.
\<close>

theorem expiry_zero_counterexample:
  "makeToken example_platform example_env (JObj [(''exp'', JNum 0)]) = Inr ''eyJleHAiOjB9.DYo'' \<and>
   fromB64Json example_platform ''eyJleHAiOjB9'' = Inr (JObj [(''exp'', JNum 0)]) \<and>
   (0::int) < 1000 \<and>
   verifyToken example_platform example_env 1000 ''eyJleHAiOjB9.DYo'' = Inr (JObj [(''exp'', JNum 0)]) \<and>
   fetch example_platform example_env 1000
     \<lparr>req_method = ''POST'', req_origin = Some ''https://a.example'', req_path = ''/api/vote'',
      req_body = Some (JObj [(''token'', JStr ''eyJleHAiOjB9.DYo''), (''vote'', example_vote)])\<rparr>
     example_db =
     (Inr \<lparr>status = 200, headers = cors ''https://a.example'',
           content = Some (JObj [(''ok'', JBool True)])\<rparr>,
      \<lparr>access_codes = access_codes example_db,
        votes = [\<lparr>participant_id = ''P1'', component = ''kg'', trial_id = Some 1,
          left_method_id = ''m1'', right_method_id = ''m2'', preferred = ''left'',
          id_key = ''P1__kg__1'', timestamp_utc = ''t'', user_agent = Some [], page_url = Some [],
          received_at = ''1970-01-01T00:00:01.000Z''\<rparr>]\<rparr>) \<and>
   makeToken example_platform example_env (JObj [(''exp'', JBool False)]) = Inr ''eyJleHAiOmZhbHNlfQ.E-8'' \<and>
   js_gt example_platform 1000 (Some (JBool False)) \<and>
   verifyToken example_platform example_env 1000 ''eyJleHAiOmZhbHNlfQ.E-8'' =
     Inr (JObj [(''exp'', JBool False)]) \<and>
   makeToken example_platform example_env (JObj [(''exp'', JNull)]) = Inr ''eyJleHAiOm51bGx9.EdI'' \<and>
   js_gt example_platform 1000 (Some JNull) \<and>
   verifyToken example_platform example_env 1000 ''eyJleHAiOm51bGx9.EdI'' = Inr (JObj [(''exp'', JNull)]) \<and>
   makeToken example_platform example_env (JObj [(''exp'', JStr [])]) = Inr ''eyJleHAiOiIifQ.D3c'' \<and>
   js_gt example_platform 1000 (Some (JStr [])) \<and>
   verifyToken example_platform example_env 1000 ''eyJleHAiOiIifQ.D3c'' = Inr (JObj [(''exp'', JStr [])]) \<and>
   verifyToken example_platform example_env 1000 ''eyJleHAiOjV9.DZ4'' = Inl (Error ''Token expired'') \<and>
   fetch example_platform example_env 1000
     \<lparr>req_method = ''POST'', req_origin = Some ''https://a.example'', req_path = ''/api/vote'',
      req_body = Some (JObj [(''token'', JStr ''eyJleHAiOjV9.DZ4'')])\<rparr>
     example_db =
     (Inr \<lparr>status = 400, headers = cors ''https://a.example'',
           content = Some (JObj [(''error'', JStr ''Missing token or vote'')])\<rparr>, example_db)"
  by code_simp

text \<open>
  C3, amended. For every token with a well-formed body and a valid signature whose decoded
  payload carries an \<^verbatim>\<open>exp\<close> that is not zero, \<^verbatim>\<open>false\<close>, \<^verbatim>\<open>null\<close> or the empty string and is
  less than the current time, as \<^verbatim>\<open>Date.now() > payload.exp\<close> compares them, \<^verbatim>\<open>verifyToken\<close>
  throws the error \<^verbatim>\<open>Token expired\<close>, and \<^verbatim>\<open>POST /api/vote\<close> with that token and a vote in
  the body is answered 403 with an error and stores nothing; from an allowed origin the
  error is \<^verbatim>\<open>Token expired\<close>.
\<close>

theorem expired_token_rejected:
  "body \<noteq> [] \<Longrightarrow> CHR ''.'' \<notin> set body \<Longrightarrow>
   hmacSign pf (TOKEN_SECRET env) body = Inr sig \<Longrightarrow>
   hmacSha256 pf (TOKEN_SECRET env) body \<noteq> [] \<Longrightarrow>
   fromB64Json pf body = Inr payload \<Longrightarrow>
   truthy (js_prop payload ''exp'') \<Longrightarrow> js_gt pf now (js_prop payload ''exp'') \<Longrightarrow>
   verifyToken pf env now (body @ ''.'' @ sig) = Inl (Error ''Token expired'') \<and>
   (req_method req = ''POST'' \<and> ends_with (req_path req) ''/api/vote'' \<and> req_body req = Some b \<and>
    js_prop b ''token'' = Some (JStr (body @ ''.'' @ sig)) \<and> truthy (js_prop b ''vote'') \<longrightarrow>
    (\<exists>resp. fetch pf env now req d = (Inr resp, d) \<and> status resp = 403 \<and>
       (\<exists>m. content resp = Some (JObj [(''error'', JStr m)])) \<and>
       (originAllowed env (case req_origin req of None \<Rightarrow> [] | Some s \<Rightarrow> s) \<longrightarrow>
          content resp = Some (JObj [(''error'', JStr ''Token expired'')]))))"
proof -
  assume b1: "body \<noteq> []" and b2: "CHR ''.'' \<notin> set body"
    and sig: "hmacSign pf (TOKEN_SECRET env) body = Inr sig"
    and mac: "hmacSha256 pf (TOKEN_SECRET env) body \<noteq> []"
    and dec: "fromB64Json pf body = Inr payload"
    and ex: "truthy (js_prop payload ''exp'')" "js_gt pf now (js_prop payload ''exp'')"
  let ?token = "body @ ''.'' @ sig"
  have nn: "payload \<noteq> JNull"
    using ex(1) by (auto simp: js_prop_def)
  have v: "verifyToken pf env now ?token = Inl (Error ''Token expired'')"
    using verify_signed [OF b1 b2 sig mac, of now] nn ex
    by (simp add: dec jsGet_def)
  have t: "?token \<noteq> []"
    using b1 by simp
  have "\<exists>resp. fetch pf env now req d = (Inr resp, d) \<and> status resp = 403 \<and>
       (\<exists>m. content resp = Some (JObj [(''error'', JStr m)])) \<and>
       (originAllowed env (case req_origin req of None \<Rightarrow> [] | Some s \<Rightarrow> s) \<longrightarrow>
          content resp = Some (JObj [(''error'', JStr ''Token expired'')]))"
    if "req_method req = ''POST''" "ends_with (req_path req) ''/api/vote''" "req_body req = Some b"
      "js_prop b ''token'' = Some (JStr ?token)" "truthy (js_prop b ''vote'')"
    using vote_rejected [OF that(1,2,3,4) t that(5) v] by simp
  with v show ?thesis
    by blast
qed

theorem expired_token_rejected_witness:
  "fromB64Json example_platform ''eyJleHAiOjV9'' = Inr (JObj [(''exp'', JNum 5)]) \<and>
   hmacSign example_platform (TOKEN_SECRET example_env) ''eyJleHAiOjV9'' = Inr ''DZ4'' \<and>
   js_gt example_platform 1000 (Some (JNum 5)) \<and>
   verifyToken example_platform example_env 1000 (''eyJleHAiOjV9'' @ ''.'' @ ''DZ4'') =
     Inl (Error ''Token expired'') \<and>
   fetch example_platform example_env 1000
     \<lparr>req_method = ''POST'', req_origin = Some ''https://a.example'', req_path = ''/api/vote'',
      req_body = Some (JObj
        [(''token'', JStr (''eyJleHAiOjV9'' @ ''.'' @ ''DZ4'')), (''vote'', example_vote)])\<rparr>
     example_db =
     (Inr \<lparr>status = 403, headers = cors ''https://a.example'',
           content = Some (JObj [(''error'', JStr ''Token expired'')])\<rparr>, example_db) \<and>
   fetch example_platform example_env 1000
     \<lparr>req_method = ''POST'', req_origin = Some ''https://c.example'', req_path = ''/api/vote'',
      req_body = Some (JObj
        [(''token'', JStr (''eyJleHAiOjV9'' @ ''.'' @ ''DZ4'')), (''vote'', example_vote)])\<rparr>
     example_db =
     (Inr \<lparr>status = 403, headers = cors ''https://c.example'',
           content = Some (JObj [(''error'', JStr ''Origin not allowed'')])\<rparr>, example_db)"
proof -
  let ?body = "''eyJleHAiOjV9''"
  let ?token = "?body @ ''.'' @ ''DZ4''"
  let ?b = "JObj [(''token'', JStr ?token), (''vote'', example_vote)]"
  let ?req = "\<lambda>orig. \<lparr>req_method = ''POST'', req_origin = Some orig, req_path = ''/api/vote'',
      req_body = Some ?b\<rparr>"
  let ?p = "JObj [(''exp'', JNum 5)]"
  have b1: "?body \<noteq> []" and b2: "CHR ''.'' \<notin> set ?body"
    by simp_all
  have sig: "hmacSign example_platform (TOKEN_SECRET example_env) ?body = Inr ''DZ4''"
    by code_simp
  have mac: "hmacSha256 example_platform (TOKEN_SECRET example_env) ?body \<noteq> []"
    by code_simp
  have dec: "fromB64Json example_platform ?body = Inr ?p"
    by code_simp
  have ex: "truthy (js_prop ?p ''exp'')" "js_gt example_platform 1000 (js_prop ?p ''exp'')"
    by code_simp+
  have g: "js_gt example_platform 1000 (Some (JNum 5))"
    by code_simp
  note t = expired_token_rejected [OF b1 b2 sig mac dec ex]
  have v: "verifyToken example_platform example_env 1000 ?token = Inl (Error ''Token expired'')"
    using t by (rule conjunct1)
  have f1: "fetch example_platform example_env 1000 (?req ''https://a.example'') example_db =
     (Inr \<lparr>status = 403, headers = cors ''https://a.example'',
           content = Some (JObj [(''error'', JStr ''Token expired'')])\<rparr>, example_db)"
    by code_simp
  have f2: "fetch example_platform example_env 1000 (?req ''https://c.example'') example_db =
     (Inr \<lparr>status = 403, headers = cors ''https://c.example'',
           content = Some (JObj [(''error'', JStr ''Origin not allowed'')])\<rparr>, example_db)"
    by code_simp
  from dec sig g v f1 f2 show ?thesis
    by simp
qed

end
